theory Spec2Isabelle
  imports Complex_Main "HOL-Library.Sublist" "HOL-Library.Multiset"
begin

section \<open>Python values used by scanner2.py\<close>

text \<open>
  File names, paths and URLs are Python \<open>str\<close> values. They are modelled as
  \<^typ>\<open>string\<close>, read as the UTF-8 encoding of the Python string: every pattern the
  scanner searches for (\<open>/\<close>, \<open>.git\<close>, the GitHub prefixes, the extensions) is ASCII, and
  an ASCII byte never occurs inside a multi-byte UTF-8 sequence, so prefix, suffix and
  substring tests, \<open>split\<close>, \<open>rstrip\<close> and \<open>replace\<close> with these patterns agree on both
  readings.
\<close>

subsection \<open>Exceptions\<close>

text \<open>
  A raised exception is its class together with its message. The scanner raises the
  built-in \<open>Exception\<close> itself, \<open>IndexError\<close> (list subscripts) and lets
  \<open>subprocess.CalledProcessError\<close> and \<open>OSError\<close> from the outside world through.
\<close>

datatype exc_class = Exception | IndexError | CalledProcessError | OSError | OtherError

datatype py_exc = Raise (exc_cls: exc_class) (exc_msg: string)

subsection \<open>String operations\<close>

definition startswith :: "string \<Rightarrow> string \<Rightarrow> bool" where
  "startswith s p = (take (length p) s = p)"

definition endswith :: "string \<Rightarrow> string \<Rightarrow> bool" where
  "endswith s p = (length p \<le> length s \<and> drop (length s - length p) s = p)"

text \<open>\<open>p in s\<close>: \<open>p\<close> occurs in \<open>s\<close> as a contiguous substring.\<close>

fun str_in :: "string \<Rightarrow> string \<Rightarrow> bool" where
  "str_in p [] = (p = [])"
| "str_in p (c # s) = (startswith (c # s) p \<or> str_in p s)"

text \<open>\<open>s.rstrip(c)\<close> for a one-character argument.\<close>

definition rstrip :: "string \<Rightarrow> char \<Rightarrow> string" where
  "rstrip s c = rev (dropWhile (\<lambda>x. x = c) (rev s))"

text \<open>
  \<open>s.replace(old, new)\<close>: every non-overlapping occurrence of \<open>old\<close>, found from the
  left, is replaced, not only a leading one. For an empty \<open>old\<close> Python puts \<open>new\<close>
  before every character and at the end.
\<close>

function replace :: "string \<Rightarrow> string \<Rightarrow> string \<Rightarrow> string" where
  "replace old new [] = (if old = [] then new else [])"
| "replace old new (c # s) =
     (if old = [] then new @ c # replace old new s
      else if startswith (c # s) old then new @ replace old new (drop (length old) (c # s))
      else c # replace old new s)"
  by pat_completeness auto
termination
  by (relation "measure (\<lambda>(old, new, s). length s)") auto

text \<open>\<open>s.split(sep)\<close> for a one-character separator: one more part than separators.\<close>

fun split :: "string \<Rightarrow> char \<Rightarrow> string list" where
  "split [] sep = [[]]"
| "split (c # s) sep =
     (if c = sep then [] # split s sep
      else (case split s sep of [] \<Rightarrow> [[c]] | p # ps \<Rightarrow> (c # p) # ps))"

section \<open>get_github_repo_info\<close>

text \<open>
  Lines 30 to 36 of scanner2.py: the URL after \<open>rstrip('/')\<close>, removal of the two
  GitHub prefixes (by \<open>replace\<close>) and of a trailing \<open>.git\<close> (\<open>url[:-4]\<close>).
\<close>

definition strip_github_url :: "string \<Rightarrow> string" where
  "strip_github_url url =
     (let url = rstrip url CHR ''/'';
          url = (if startswith url ''https://github.com/''
                 then replace ''https://github.com/'' [] url else url);
          url = (if startswith url ''git@github.com:''
                 then replace ''git@github.com:'' [] url else url);
          url = (if endswith url ''.git'' then take (length url - 4) url else url)
      in url)"

text \<open>
  Lines 37 and 38: \<open>parts = url.split('/')\<close> and \<open>return parts[0], parts[1]\<close>. A
  subscript outside the list raises \<open>IndexError\<close>.
\<close>

definition subscript :: "'a list \<Rightarrow> nat \<Rightarrow> py_exc + 'a" where
  "subscript xs i =
     (if i < length xs then Inr (xs ! i) else Inl (Raise IndexError ''list index out of range''))"

definition get_github_repo_info :: "string \<Rightarrow> py_exc + (string \<times> string)" where
  "get_github_repo_info url =
     (let parts = split (strip_github_url url) CHR ''/'' in
      case subscript parts 0 of
        Inl e \<Rightarrow> Inl e
      | Inr owner \<Rightarrow>
          (case subscript parts 1 of
             Inl e \<Rightarrow> Inl e
           | Inr repo \<Rightarrow> Inr (owner, repo)))"

section \<open>clone_repository\<close>

text \<open>
  What the scanner reads from the outside world is a parameter of the model: the token,
  the directory \<open>tempfile.mkdtemp\<close> creates, the outcome of \<open>git clone\<close>, the directory
  walk, \<open>os.path.relpath\<close>, the text \<open>f.read()\<close> returns, lizard's per-function
  cyclomatic complexities, the order in which the futures complete, and the two float
  computations (the canvas side \<open>int((num_files ** 0.5) * 45)\<close> and the squarify
  package's \<open>normalize_sizes\<close> followed by \<open>squarify\<close>). Coordinates are values of a type
  \<open>'f\<close> the scanner only copies.
\<close>

type_synonym codepoint = nat

type_synonym pystr = "codepoint list"

record file_info =
  file_name :: string
  file_path :: string
  file_local_path :: string

record 'f rect =
  rect_x :: 'f
  rect_y :: 'f
  rect_dx :: 'f
  rect_dy :: 'f

record 'f env =
  GITHUB_TOKEN :: "string option"
  mkdtemp :: string
  git_clone :: "string \<Rightarrow> string \<Rightarrow> py_exc + unit"
  os_walk :: "string \<Rightarrow> (string \<times> string list \<times> string list) list"
  relpath :: "string \<Rightarrow> string \<Rightarrow> string"
  read_text :: "string \<Rightarrow> py_exc + pystr"
  lizard_analyze_file :: "string \<Rightarrow> py_exc + int list"
  as_completed :: "file_info list \<Rightarrow> file_info list"
  float_area :: "nat \<Rightarrow> int"
  squarify :: "int list \<Rightarrow> int \<Rightarrow> py_exc + 'f rect list"

text \<open>
  Lines 41 to 65. \<open>if token:\<close> holds for a token that is neither \<open>None\<close> nor empty;
  with such a token the clone URL is rebuilt from the parsed owner and repository. A
  failing \<open>git clone\<close> re-raises after the temporary directory is removed.
\<close>

definition clone_repository :: "'f env \<Rightarrow> string \<Rightarrow> string option \<Rightarrow> py_exc + string" where
  "clone_repository env repo_url token =
     (let temp_dir = mkdtemp env in
      case (case token of
              None \<Rightarrow> Inr repo_url
            | Some t \<Rightarrow>
                if t = [] then Inr repo_url
                else (case get_github_repo_info repo_url of
                        Inl e \<Rightarrow> Inl e
                      | Inr (owner, repo) \<Rightarrow>
                          Inr (''https://'' @ t @ ''@github.com/'' @ owner @ ''/'' @ repo @ ''.git''))) of
        Inl e \<Rightarrow> Inl e
      | Inr clone_url \<Rightarrow>
          (case git_clone env clone_url temp_dir of
             Inl e \<Rightarrow> Inl e
           | Inr _ \<Rightarrow> Inr temp_dir))"

section \<open>get_source_files_from_local\<close>

definition SUPPORTED_EXTENSIONS :: "string list" where
  "SUPPORTED_EXTENSIONS =
     [''.c'', ''.cc'', ''.cpp'', ''.cxx'', ''.c++'', ''.h'', ''.hh'', ''.hpp'', ''.hxx'', ''.h++'',
      ''.java'', ''.js'', ''.m'', ''.mm'',
      ''.py'', ''.rb'', ''.swift'', ''.go'', ''.php'', ''.pl'', ''.pm'', ''.t'',
      ''.cs'', ''.d'', ''.erl'', ''.ex'', ''.exs'', ''.f90'', ''.f'', ''.for'', ''.f95'',
      ''.groovy'', ''.hs'', ''.kt'', ''.kts'', ''.lua'', ''.nb'', ''.pas'', ''.pp'',
      ''.R'', ''.rs'', ''.scala'', ''.sc'', ''.sh'', ''.bash'', ''.sql'', ''.ts'', ''.tsx'',
      ''.vb'', ''.vbs'', ''.gd'']"

definition MAX_FILES :: int where
  "MAX_FILES = 2000"

definition MAX_WORKERS :: int where
  "MAX_WORKERS = 20"

text \<open>\<open>os.path.join\<close> of two components (posixpath).\<close>

definition os_path_join :: "string \<Rightarrow> string \<Rightarrow> string" where
  "os_path_join a b =
     (if startswith b ''/'' then b
      else if a = [] \<or> endswith a ''/'' then a @ b
      else a @ ''/'' @ b)"

definition supported :: "string \<Rightarrow> bool" where
  "supported file = list_ex (\<lambda>ext. endswith file ext) SUPPORTED_EXTENSIONS"

definition source_file :: "'f env \<Rightarrow> string \<Rightarrow> string \<Rightarrow> string \<Rightarrow> file_info" where
  "source_file env local_repo_path root_dir file =
     (let full_path = os_path_join root_dir file in
      \<lparr>file_name = file,
       file_path = relpath env full_path local_repo_path,
       file_local_path = full_path\<rparr>)"

text \<open>
  The inner loop (lines 75 to 85) over the files of one directory. The result is the
  list so far and whether the function returned from inside the loop, which is when the
  \<open>[WARN] Reached file limit\<close> line is printed. The limit is tested after every file of
  the directory, supported or not, and after the append.
\<close>

fun scan_files ::
  "'f env \<Rightarrow> string \<Rightarrow> int \<Rightarrow> string \<Rightarrow> string list \<Rightarrow> file_info list \<Rightarrow> file_info list \<times> bool"
where
  "scan_files env local_repo_path max_files root_dir [] source_files = (source_files, False)"
| "scan_files env local_repo_path max_files root_dir (file # files) source_files =
     (let source_files =
            (if supported file
             then source_files @ [source_file env local_repo_path root_dir file]
             else source_files)
      in if int (length source_files) \<ge> max_files then (source_files, True)
         else scan_files env local_repo_path max_files root_dir files source_files)"

text \<open>The outer loop (lines 70 to 86) over the triples \<open>os.walk\<close> yields.\<close>

fun scan_dirs ::
  "'f env \<Rightarrow> string \<Rightarrow> int \<Rightarrow> (string \<times> string list \<times> string list) list \<Rightarrow>
   file_info list \<Rightarrow> file_info list \<times> bool"
where
  "scan_dirs env local_repo_path max_files [] source_files = (source_files, False)"
| "scan_dirs env local_repo_path max_files ((root_dir, dirs, files) # walk) source_files =
     (if str_in ''.git'' root_dir then scan_dirs env local_repo_path max_files walk source_files
      else (case scan_files env local_repo_path max_files root_dir files source_files of
              (source_files, True) \<Rightarrow> (source_files, True)
            | (source_files, False) \<Rightarrow>
                scan_dirs env local_repo_path max_files walk source_files))"

definition get_source_files_from_local :: "'f env \<Rightarrow> string \<Rightarrow> int \<Rightarrow> file_info list \<times> bool" where
  "get_source_files_from_local env local_repo_path max_files =
     scan_dirs env local_repo_path max_files (os_walk env local_repo_path) []"

section \<open>analyze_file\<close>

text \<open>
  The content is a Python \<open>str\<close>, a list of code points. \<open>str.splitlines\<close> ends a line at
  \<open>\n\<close>, \<open>\r\<close>, \<open>\r\n\<close> (one boundary), \<open>\v\<close>, \<open>\f\<close>, \<open>\x1c\<close>, \<open>\x1d\<close>, \<open>\x1e\<close>, \<open>\x85\<close>,
  U+2028 and U+2029; the text after the last boundary is a line when it is not empty.
\<close>

definition is_linebreak :: "codepoint \<Rightarrow> bool" where
  "is_linebreak c =
     (c = 10 \<or> c = 11 \<or> c = 12 \<or> c = 13 \<or> c = 28 \<or> c = 29 \<or> c = 30 \<or> c = 133
      \<or> c = 8232 \<or> c = 8233)"

fun splitlines_from :: "pystr \<Rightarrow> pystr \<Rightarrow> pystr list" where
  "splitlines_from cur [] = (if cur = [] then [] else [rev cur])"
| "splitlines_from cur [c] = (if is_linebreak c then [rev cur] else [rev (c # cur)])"
| "splitlines_from cur (c # d # s) =
     (if c = 13 \<and> d = 10 then rev cur # splitlines_from [] s
      else if is_linebreak c then rev cur # splitlines_from [] (d # s)
      else splitlines_from (c # cur) (d # s))"

definition splitlines :: "pystr \<Rightarrow> pystr list" where
  "splitlines content = splitlines_from [] content"

text \<open>The number of line breaks of a text, \<open>\r\n\<close> being one: what the specification counts.\<close>

fun count_linebreaks :: "pystr \<Rightarrow> nat" where
  "count_linebreaks [] = 0"
| "count_linebreaks [c] = (if is_linebreak c then 1 else 0)"
| "count_linebreaks (c # d # s) =
     (if c = 13 \<and> d = 10 then Suc (count_linebreaks s)
      else if is_linebreak c then Suc (count_linebreaks (d # s))
      else count_linebreaks (d # s))"

record metric =
  metric_name :: string
  metric_size :: int
  metric_complexity :: int
  metric_churn :: int

text \<open>\<open>a or b\<close> on integers: \<open>b\<close> when \<open>a\<close> is zero.\<close>

definition py_or :: "int \<Rightarrow> int \<Rightarrow> int" where
  "py_or a b = (if a = 0 then b else a)"

text \<open>
  Lines 88 to 112. Every exception raised while reading or analysing is caught and
  turned into \<open>None\<close>. lizard reads the file itself, from the same path.
\<close>

definition analyze_file :: "'f env \<Rightarrow> file_info \<Rightarrow> metric option" where
  "analyze_file env file_info =
     (case read_text env (file_local_path file_info) of
        Inl e \<Rightarrow> None
      | Inr content \<Rightarrow>
          if content = [] then None
          else let lines = splitlines content in
            if lines = [] then None
            else (case lizard_analyze_file env (file_local_path file_info) of
                    Inl e \<Rightarrow> None
                  | Inr function_list \<Rightarrow>
                      Some \<lparr>metric_name = file_name file_info,
                            metric_size = max 1 (int (length lines)),
                            metric_complexity = py_or (sum_list function_list) 1,
                            metric_churn = 1\<rparr>))"

section \<open>build_city_from_github\<close>

text \<open>
  What \<open>future.result()\<close> gives for the future of a file: the value \<open>analyze_file\<close>
  returned, or the exception it raised. \<open>analyze_file\<close> catches every \<open>Exception\<close>, so
  the worker always returns.
\<close>

definition future_result :: "'f env \<Rightarrow> file_info \<Rightarrow> py_exc + metric option" where
  "future_result env file_info = Inr (analyze_file env file_info)"

text \<open>
  The collection loop (lines 136 to 144) over the files in completion order: a result
  that is \<open>None\<close> and a future that raised are both skipped.
\<close>

fun collect_results :: "(file_info \<Rightarrow> py_exc + metric option) \<Rightarrow> file_info list \<Rightarrow> metric list" where
  "collect_results result [] = []"
| "collect_results result (file_info # completed) =
     (case result file_info of
        Inl e \<Rightarrow> collect_results result completed
      | Inr None \<Rightarrow> collect_results result completed
      | Inr (Some r) \<Rightarrow> r # collect_results result completed)"

text \<open>Lines 130 to 147: the two guards around the worker pool.\<close>

definition analysis_stage :: "'f env \<Rightarrow> file_info list \<Rightarrow> py_exc + metric list" where
  "analysis_stage env files =
     (if files = [] then Inl (Raise Exception ''No analyzable source files found in repository.'')
      else let files_to_render = collect_results (future_result env) (as_completed env files) in
        if files_to_render = [] then Inl (Raise Exception ''No analyzable files could be processed.'')
        else Inr files_to_render)"

text \<open>Lines 161 to 171: the colour of a tile.\<close>

definition color_of :: "int \<Rightarrow> string" where
  "color_of complexity =
     (if complexity \<le> 5 then ''#00ffcc''
      else if complexity \<le> 15 then ''#00ff88''
      else if complexity \<le> 30 then ''#FFC300''
      else if complexity \<le> 50 then ''#ff9900''
      else ''#ff4444'')"

record 'f tile =
  tile_name :: string
  tile_x :: 'f
  tile_y :: 'f
  tile_w :: 'f
  tile_d :: 'f
  tile_h :: int
  tile_color :: string
  tile_size :: int

definition make_tile :: "metric \<Rightarrow> 'f rect \<Rightarrow> 'f tile" where
  "make_tile file_data r =
     (let complexity = metric_complexity file_data;
          color = color_of complexity;
          height = max 1 (complexity * 2)
      in \<lparr>tile_name = metric_name file_data,
          tile_x = rect_x r, tile_y = rect_y r,
          tile_w = rect_dx r, tile_d = rect_dy r,
          tile_h = height,
          tile_color = color,
          tile_size = metric_size file_data\<rparr>)"

text \<open>
  The assembly loop (lines 159 to 182): \<open>enumerate(files_to_render)\<close> drives it and
  \<open>rects[i]\<close> is a subscript, so it raises when the rectangles run out and never looks
  at a rectangle past the last metric.
\<close>

fun assemble_from :: "nat \<Rightarrow> metric list \<Rightarrow> 'f rect list \<Rightarrow> py_exc + 'f tile list" where
  "assemble_from i [] rects = Inr []"
| "assemble_from i (file_data # files_to_render) rects =
     (case subscript rects i of
        Inl e \<Rightarrow> Inl e
      | Inr r \<Rightarrow>
          (case assemble_from (Suc i) files_to_render rects of
             Inl e \<Rightarrow> Inl e
           | Inr city_data \<Rightarrow> Inr (make_tile file_data r # city_data)))"

definition assemble :: "metric list \<Rightarrow> 'f rect list \<Rightarrow> py_exc + 'f tile list" where
  "assemble files_to_render rects = assemble_from 0 files_to_render rects"

text \<open>Lines 149 to 182: canvas side, sizes, layout and assembly.\<close>

definition render_stage :: "'f env \<Rightarrow> metric list \<Rightarrow> py_exc + 'f tile list" where
  "render_stage env files_to_render =
     (let num_files = length files_to_render;
          dynamic_area = max 150 (float_area env num_files);
          sizes = map metric_size files_to_render;
          sizes = (if sum_list sizes = 0 then replicate (length files_to_render) 1 else sizes)
      in case squarify env sizes dynamic_area of
           Inl e \<Rightarrow> Inl e
         | Inr rects \<Rightarrow> assemble files_to_render rects)"

text \<open>
  Lines 114 to 190. The value is the tile list written to \<open>city_data2.json\<close>, or the
  exception that leaves the function. The URL is parsed before the \<open>try\<close> block. Writing
  the JSON file and removing the temporary directory are taken to succeed.
\<close>

definition build_city_from_github :: "'f env \<Rightarrow> string \<Rightarrow> py_exc + 'f tile list" where
  "build_city_from_github env repo_url =
     (case get_github_repo_info repo_url of
        Inl e \<Rightarrow> Inl e
      | Inr (owner, repo) \<Rightarrow>
          (case clone_repository env repo_url (GITHUB_TOKEN env) of
             Inl e \<Rightarrow> Inl e
           | Inr local_repo_path \<Rightarrow>
               (let files = fst (get_source_files_from_local env local_repo_path MAX_FILES) in
                case analysis_stage env files of
                  Inl e \<Rightarrow> Inl e
                | Inr files_to_render \<Rightarrow> render_stage env files_to_render)))"

text \<open>
  The script's entry (lines 214 to 225): the exit status and, on failure, the message
  printed after \<open>[FATAL ERROR]\<close>. Every \<open>Exception\<close> ends in the same handler.
\<close>

definition main :: "'f env \<Rightarrow> string list \<Rightarrow> nat \<times> string option" where
  "main env argv =
     (let env = (if length argv > 2 then env\<lparr>GITHUB_TOKEN := Some (argv ! 2)\<rparr> else env) in
      if length argv > 1
      then (case build_city_from_github env (argv ! 1) of
              Inl e \<Rightarrow> (1, Some (exc_msg e))
            | Inr city_data \<Rightarrow> (0, None))
      else (1, Some ''Repository URL is required''))"

section \<open>The layout engine\<close>

text \<open>
  \<open>build_city_from_github\<close> hands the sizes to the squarify package (lines 156 and 157)
  and copies the rectangles it returns. The package is not part of the repository's
  sources; section 4.4 of the specification gives its algorithm step by step, and the
  definitions of this section follow that text. Floating-point numbers are taken as real
  numbers, so rounding is not modelled and sums are exact.
\<close>

text \<open>
  Modelled from the spec: \<open>squarify.normalize_sizes\<close> is missing from the sources. Step 1
  of section 4.4: the sizes are rescaled linearly so that their sum is the area of the
  target rectangle, \<open>value_i = size_i * A\<^sup>2 / \<Sum>size\<close>.
\<close>

definition normalize_sizes :: "real list \<Rightarrow> real \<Rightarrow> real \<Rightarrow> real list" where
  "normalize_sizes sizes dx dy = map (\<lambda>size. size * (dx * dy) / sum_list sizes) sizes"

text \<open>
  Modelled from the spec: the row layout of the squarify package is missing from the
  sources. Step 4 of section 4.4: a row is laid out as adjacent rectangles along the
  shorter side of the free rectangle; the length of a rectangle along that side is
  proportional to its value, and the thickness shared by the row is such that the row's
  area is the sum of its values. \<open>layoutrow_from\<close> stacks the rectangles along the
  vertical side, with a common horizontal thickness \<open>width\<close>.
\<close>

fun layoutrow_from :: "real list \<Rightarrow> real \<Rightarrow> real \<Rightarrow> real \<Rightarrow> real rect list" where
  "layoutrow_from [] x y width = []"
| "layoutrow_from (v # vs) x y width =
     \<lparr>rect_x = x, rect_y = y, rect_dx = width, rect_dy = v / width\<rparr>
       # layoutrow_from vs x (y + v / width) width"

text \<open>
  Modelled from the spec: the column layout of the squarify package is missing from the
  sources. Step 4 of section 4.4 for a free rectangle whose horizontal side is the
  shorter one: the rectangles are put side by side along the horizontal side, with a
  common vertical thickness \<open>height\<close>.
\<close>

fun layoutcol_from :: "real list \<Rightarrow> real \<Rightarrow> real \<Rightarrow> real \<Rightarrow> real rect list" where
  "layoutcol_from [] x y height = []"
| "layoutcol_from (v # vs) x y height =
     \<lparr>rect_x = x, rect_y = y, rect_dx = v / height, rect_dy = height\<rparr>
       # layoutcol_from vs (x + v / height) y height"

text \<open>
  Modelled from the spec: the choice of the side is missing from the sources. Rows are
  laid along the currently shorter side of the free rectangle: along the vertical side
  when the free rectangle is at least as wide as it is high, along the horizontal side
  otherwise. The thickness is the row's total value divided by the length of that side.
\<close>

definition layout :: "real list \<Rightarrow> real \<Rightarrow> real \<Rightarrow> real \<Rightarrow> real \<Rightarrow> real rect list" where
  "layout row x y dx dy =
     (if dx \<ge> dy then layoutrow_from row x y (sum_list row / dy)
      else layoutcol_from row x y (sum_list row / dx))"

text \<open>
  Modelled from the spec: the shrinking of the free rectangle is missing from the
  sources. Step 5 of section 4.4: the free rectangle shrinks by the thickness of the row
  just laid out.
\<close>

definition leftover :: "real list \<Rightarrow> real \<Rightarrow> real \<Rightarrow> real \<Rightarrow> real \<Rightarrow> real \<times> real \<times> real \<times> real" where
  "leftover row x y dx dy =
     (if dx \<ge> dy then (x + sum_list row / dy, y, dx - sum_list row / dy, dy)
      else (x, y + sum_list row / dx, dx, dy - sum_list row / dx))"

text \<open>The largest element of a list of ratios (of a row, which is never empty).\<close>

fun maximum :: "real list \<Rightarrow> real" where
  "maximum [] = 0"
| "maximum [a] = a"
| "maximum (a # b # as) = max a (maximum (b # as))"

text \<open>
  Modelled from the spec: the worst aspect ratio of a row is missing from the sources.
  Step 3 of section 4.4: the worst ratio of a candidate row is the largest
  \<open>max(width/height, height/width)\<close> over the rectangles the row would give if laid out
  in the free rectangle.
\<close>

definition worst_ratio :: "real list \<Rightarrow> real \<Rightarrow> real \<Rightarrow> real" where
  "worst_ratio row dx dy =
     maximum (map (\<lambda>r. max (rect_dx r / rect_dy r) (rect_dy r / rect_dx r)) (layout row 0 0 dx dy))"

text \<open>
  Modelled from the spec: the growth of a row is missing from the sources. Step 3 of
  section 4.4: a row grows by one value at a time from the front of the remaining list
  and stops the moment the next value would increase the worst ratio (it goes on when
  the ratio decreases or holds), or when the list is exhausted. \<open>grow row vs\<close> is the
  number of values of \<open>vs\<close> that join the row \<open>row\<close>.
\<close>

fun grow :: "real list \<Rightarrow> real list \<Rightarrow> real \<Rightarrow> real \<Rightarrow> nat" where
  "grow row [] dx dy = 0"
| "grow row (v # vs) dx dy =
     (if worst_ratio (row @ [v]) dx dy \<le> worst_ratio row dx dy
      then Suc (grow (row @ [v]) vs dx dy) else 0)"

text \<open>
  Modelled from the spec: \<open>squarify.squarify\<close> is missing from the sources. Steps 2 to 5
  of section 4.4: take the first remaining value, grow its row, lay the row out in the
  free rectangle, then go on with the remaining values in what is left of the free
  rectangle, until no value remains. The values are taken in input order; nothing is
  sorted.
\<close>

function squarified :: "real list \<Rightarrow> real \<Rightarrow> real \<Rightarrow> real \<Rightarrow> real \<Rightarrow> real rect list" where
  "squarified [] x y dx dy = []"
| "squarified (v # vs) x y dx dy =
     (let k = grow [v] vs dx dy;
          row = v # take k vs;
          remaining = drop k vs
      in layout row x y dx dy @
         (case leftover row x y dx dy of
            (x', y', dx', dy') \<Rightarrow> squarified remaining x' y' dx' dy'))"
  by pat_completeness auto
termination
  by (relation "measure (\<lambda>(vs, x, y, dx, dy). length vs)") auto

text \<open>
  Modelled from the spec: the two calls of lines 156 and 157, \<open>normalize_sizes(sizes, A, A)\<close>
  followed by \<open>squarify(values, 0, 0, A, A)\<close>, on the target square of side \<open>A\<close>.
\<close>

definition layout_step :: "real list \<Rightarrow> real \<Rightarrow> real rect list" where
  "layout_step sizes a = squarified (normalize_sizes sizes a a) 0 0 a a"

text \<open>
  The area of a rectangle; two rectangles overlap when their interiors meet; a rectangle
  is inside the rectangle with corner \<open>(x, y)\<close> and sides \<open>dx\<close>, \<open>dy\<close>.
\<close>

definition area :: "real rect \<Rightarrow> real" where
  "area r = rect_dx r * rect_dy r"

definition overlap :: "real rect \<Rightarrow> real rect \<Rightarrow> bool" where
  "overlap a b =
     (rect_x a < rect_x b + rect_dx b \<and> rect_x b < rect_x a + rect_dx a \<and>
      rect_y a < rect_y b + rect_dy b \<and> rect_y b < rect_y a + rect_dy a)"

definition inside :: "real rect \<Rightarrow> real \<Rightarrow> real \<Rightarrow> real \<Rightarrow> real \<Rightarrow> bool" where
  "inside r x y dx dy =
     (x \<le> rect_x r \<and> rect_x r + rect_dx r \<le> x + dx \<and>
      y \<le> rect_y r \<and> rect_y r + rect_dy r \<le> y + dy)"

abbreviation apart :: "real rect \<Rightarrow> real rect \<Rightarrow> bool" where
  "apart a b \<equiv> \<not> overlap a b"

section \<open>The enumeration without a limit\<close>

text \<open>
  What the two loops of \<open>get_source_files_from_local\<close> find when nothing stops them: for
  every walked directory whose path does not contain \<open>.git\<close>, its supported files in
  listing order.
\<close>

definition found_in_dir :: "'f env \<Rightarrow> string \<Rightarrow> string \<times> string list \<times> string list \<Rightarrow> file_info list" where
  "found_in_dir env local_repo_path t =
     (case t of (root_dir, dirs, files) \<Rightarrow>
        if str_in ''.git'' root_dir then []
        else map (source_file env local_repo_path root_dir) (filter supported files))"

definition all_source_files :: "'f env \<Rightarrow> string \<Rightarrow> file_info list" where
  "all_source_files env local_repo_path =
     concat (map (found_in_dir env local_repo_path) (os_walk env local_repo_path))"

section \<open>Example inputs\<close>

text \<open>
  A small repository: two readable Python files, one file that cannot be read, a file
  with an unsupported extension, and a \<open>.github\<close> directory holding a Python file. The
  content of \<open>a.py\<close> is \<open>a\nb\<close> and lizard finds no function in it; the content of
  \<open>b.py\<close> is \<open>x\<close> and lizard finds two functions, of complexity 2 and 3. The futures
  complete in the reverse of the submission order.
\<close>

definition example_env :: "int env" where
  "example_env =
     \<lparr>GITHUB_TOKEN = None,
      mkdtemp = ''/tmp/repo'',
      git_clone = (\<lambda>clone_url temp_dir. Inr ()),
      os_walk = (\<lambda>top.
        [(''/tmp/repo'', [''.github''], [''a.py'', ''b.py'', ''broken.py'', ''README.md'']),
         (''/tmp/repo/.github'', [], [''ci.py''])]),
      relpath = (\<lambda>p start. drop (Suc (length start)) p),
      read_text = (\<lambda>p.
        if p = ''/tmp/repo/a.py'' then Inr [97, 10, 98]
        else if p = ''/tmp/repo/b.py'' then Inr [120]
        else Inl (Raise OSError ''cannot read'')),
      lizard_analyze_file = (\<lambda>p. if p = ''/tmp/repo/b.py'' then Inr [2, 3] else Inr []),
      as_completed = rev,
      float_area = (\<lambda>n. 45),
      squarify = (\<lambda>sizes area.
        Inr (map (\<lambda>s. \<lparr>rect_x = 0, rect_y = 0, rect_dx = 1, rect_dy = 1\<rparr>) sizes))\<rparr>"

definition example_file :: "string \<Rightarrow> file_info" where
  "example_file n = \<lparr>file_name = n, file_path = n, file_local_path = ''/tmp/repo/'' @ n\<rparr>"

definition example_files :: "file_info list" where
  "example_files = [example_file ''a.py'', example_file ''b.py'', example_file ''broken.py'']"

text \<open>The same repository when no file can be read, and when the walk finds nothing.\<close>

definition unreadable_env :: "int env" where
  "unreadable_env = example_env\<lparr>read_text := (\<lambda>p. Inl (Raise OSError ''cannot read''))\<rparr>"

definition empty_env :: "int env" where
  "empty_env = example_env\<lparr>os_walk := (\<lambda>top. [])\<rparr>"

definition example_url :: string where
  "example_url = ''https://github.com/o/r''"

definition example_metric :: metric where
  "example_metric =
     \<lparr>metric_name = ''a.py'', metric_size = 2, metric_complexity = 1, metric_churn = 1\<rparr>"

definition example_rect :: "int rect" where
  "example_rect = \<lparr>rect_x = 0, rect_y = 0, rect_dx = 1, rect_dy = 1\<rparr>"

text \<open>
  A repository with one directory: two analyzable files, a file that cannot be read, an
  empty file and a file lizard raises on. The layout is the one of the specification.
\<close>

definition city_env :: "real env" where
  "city_env =
     \<lparr>GITHUB_TOKEN = None,
      mkdtemp = ''/tmp/repo'',
      git_clone = (\<lambda>clone_url temp_dir. Inr ()),
      os_walk = (\<lambda>top.
        [(''/tmp/repo'', [], [''a.py'', ''b.py'', ''unreadable.py'', ''empty.py'', ''bad.py''])]),
      relpath = (\<lambda>p start. drop (Suc (length start)) p),
      read_text = (\<lambda>p.
        if p = ''/tmp/repo/a.py'' then Inr [97, 10, 98]
        else if p = ''/tmp/repo/b.py'' then Inr [120]
        else if p = ''/tmp/repo/empty.py'' then Inr []
        else if p = ''/tmp/repo/bad.py'' then Inr [120]
        else Inl (Raise OSError ''cannot read'')),
      lizard_analyze_file = (\<lambda>p.
        if p = ''/tmp/repo/b.py'' then Inr [2, 3]
        else if p = ''/tmp/repo/bad.py'' then Inl (Raise OtherError ''cannot parse'')
        else Inr []),
      as_completed = rev,
      float_area = (\<lambda>n. if n \<le> 1 then 45 else if n = 2 then 63 else 77),
      squarify = (\<lambda>sizes area.
        Inr (layout_step (map real_of_int sizes) (real_of_int area)))\<rparr>"

definition city_files :: "file_info list" where
  "city_files =
     [example_file ''a.py'', example_file ''b.py'', example_file ''unreadable.py'',
      example_file ''empty.py'', example_file ''bad.py'']"

text \<open>What the analyzer gives for \<open>b.py\<close> and \<open>a.py\<close>, in completion order.\<close>

definition city_metrics :: "metric list" where
  "city_metrics =
     [\<lparr>metric_name = ''b.py'', metric_size = 1, metric_complexity = 5, metric_churn = 1\<rparr>,
      \<lparr>metric_name = ''a.py'', metric_size = 2, metric_complexity = 1, metric_churn = 1\<rparr>]"

text \<open>The class of the exception a run ends with, if it ends with one.\<close>

fun raised_class :: "py_exc + 'a \<Rightarrow> exc_class option" where
  "raised_class (Inl e) = Some (exc_cls e)"
| "raised_class (Inr v) = None"

section \<open>Properties of the string operations\<close>

lemmas example_simps =
  example_env_def example_file_def example_files_def unreadable_env_def empty_env_def
  example_url_def example_metric_def example_rect_def

lemmas string_simps = startswith_def endswith_def rstrip_def

lemma split_not_Nil: "split s sep \<noteq> []"
  by (induction s) (auto split: list.splits)

lemma length_split: "length (split s sep) = Suc (count_list s sep)"
  by (induction s) (auto split: list.splits simp: split_not_Nil)

lemma split_no_sep: "sep \<notin> set s \<Longrightarrow> split s sep = [s]"
  by (induction s) auto

lemma get_github_repo_info_ok:
  assumes "CHR ''/'' \<in> set (strip_github_url url)"
  shows "\<exists>owner repo. get_github_repo_info url = Inr (owner, repo)"
proof -
  have "0 < count_list (strip_github_url url) CHR ''/''"
    using assms count_list_0_iff[of "strip_github_url url" "CHR ''/''"] by auto
  then have "1 < length (split (strip_github_url url) CHR ''/'')"
    by (simp add: length_split)
  then show ?thesis
    by (auto simp: get_github_repo_info_def subscript_def Let_def)
qed

lemma startswith_prefix: "startswith s p = prefix p s"
  unfolding startswith_def
  by (metis append_eq_conv_conj prefix_def take_is_prefix)

lemma str_in_sublist: "str_in p s = sublist p s"
  by (induction s) (auto simp: startswith_prefix sublist_Cons_right)

section \<open>Properties of the directory scan\<close>

lemma scan_dirs_skip:
  "str_in ''.git'' root_dir \<Longrightarrow>
   scan_dirs env base m (pre @ (root_dir, dirs, files) # post) acc = scan_dirs env base m (pre @ post) acc"
  by (induction pre arbitrary: acc) (auto split: prod.splits bool.splits)

lemma scan_files_mem:
  "e \<in> set (fst (scan_files env base m root_dir files acc)) \<Longrightarrow>
   e \<in> set acc \<or> (\<exists>file \<in> set files. supported file \<and> e = source_file env base root_dir file)"
proof (induction files arbitrary: acc)
  case Nil
  then show ?case by simp
next
  case (Cons f files)
  let ?acc' = "if supported f then acc @ [source_file env base root_dir f] else acc"
  show ?case
  proof (cases "m \<le> int (length ?acc')")
    case True
    with Cons.prems have "e \<in> set ?acc'" by (simp add: Let_def)
    then show ?thesis by (auto split: if_splits)
  next
    case False
    with Cons.prems have "e \<in> set (fst (scan_files env base m root_dir files ?acc'))"
      by (simp add: Let_def)
    from Cons.IH[OF this] show ?thesis by (auto split: if_splits)
  qed
qed

lemma scan_dirs_mem:
  "e \<in> set (fst (scan_dirs env base m walk acc)) \<Longrightarrow>
   e \<in> set acc \<or> (\<exists>(root_dir, dirs, files) \<in> set walk. \<not> str_in ''.git'' root_dir \<and> 
      (\<exists>file \<in> set files. supported file \<and> e = source_file env base root_dir file))"
proof (induction walk arbitrary: acc)
  case Nil
  then show ?case by simp
next
  case (Cons t walk)
  obtain root_dir dirs files where t: "t = (root_dir, dirs, files)" by (cases t)
  show ?case
  proof (cases "str_in ''.git'' root_dir")
    case True
    with Cons t show ?thesis by auto
  next
    case False
    obtain acc' b where sf: "scan_files env base m root_dir files acc = (acc', b)" by force
    show ?thesis
    proof (cases b)
      case True
      with sf False t Cons.prems have "e \<in> set acc'" by simp
      with scan_files_mem[of e env base m root_dir files acc] sf
      show ?thesis using False t by auto
    next
      case False': False
      with sf False t Cons.prems have "e \<in> set (fst (scan_dirs env base m walk acc'))" by simp
      from Cons.IH[OF this] scan_files_mem[of e env base m root_dir files acc] sf
      show ?thesis using False t by auto
    qed
  qed
qed

lemma scan_files_bound:
  "1 \<le> m \<Longrightarrow> int (length acc) < m \<Longrightarrow>
   int (length (fst (scan_files env base m root_dir files acc))) \<le> m \<and>
   (snd (scan_files env base m root_dir files acc) \<longrightarrow> int (length (fst (scan_files env base m root_dir files acc))) = m) \<and>
   (\<not> snd (scan_files env base m root_dir files acc) \<longrightarrow> int (length (fst (scan_files env base m root_dir files acc))) < m)"
  by (induction files arbitrary: acc) (auto simp: Let_def)

lemma scan_dirs_bound:
  "1 \<le> m \<Longrightarrow> int (length acc) < m \<Longrightarrow>
   int (length (fst (scan_dirs env base m walk acc))) \<le> m \<and>
   (snd (scan_dirs env base m walk acc) \<longrightarrow> int (length (fst (scan_dirs env base m walk acc))) = m)"
proof (induction walk arbitrary: acc)
  case Nil
  then show ?case by simp
next
  case (Cons t walk)
  obtain root_dir dirs files where t: "t = (root_dir, dirs, files)" by (cases t)
  obtain acc' b where sf: "scan_files env base m root_dir files acc = (acc', b)" by force
  from scan_files_bound[OF Cons.prems, of env base root_dir files] sf
  have b: "int (length acc') \<le> m" "b \<Longrightarrow> int (length acc') = m" "\<not> b \<Longrightarrow> int (length acc') < m"
    by auto
  show ?case
  proof (cases "str_in ''.git'' root_dir")
    case True
    with Cons t show ?thesis by simp
  next
    case False
    then show ?thesis using Cons.IH[of acc'] Cons.prems(1) b sf t
      by (cases b) auto
  qed
qed

lemma scan_files_take:
  assumes "int (length acc) < m"
  shows "scan_files env base m root_dir files acc =
           (take (nat m) (acc @ map (source_file env base root_dir) (filter supported files)),
            m \<le> int (length (acc @ map (source_file env base root_dir) (filter supported files))))"
  using assms
proof (induction files arbitrary: acc)
  case Nil
  then show ?case by simp
next
  case (Cons f files)
  show ?case
  proof (cases "supported f")
    case False
    with Cons show ?thesis by (simp add: Let_def)
  next
    case True
    let ?acc' = "acc @ [source_file env base root_dir f]"
    show ?thesis
    proof (cases "m \<le> int (length ?acc')")
      case full: True
      with Cons.prems have "nat m = length ?acc'" by simp
      then show ?thesis using True full by (simp add: Let_def)
    next
      case notfull: False
      then have "int (length ?acc') < m" by simp
      from Cons.IH[OF this] True notfull show ?thesis by (simp add: Let_def)
    qed
  qed
qed

lemma scan_dirs_take:
  assumes "int (length acc) < m"
  shows "scan_dirs env base m walk acc =
           (take (nat m) (acc @ concat (map (found_in_dir env base) walk)),
            m \<le> int (length (acc @ concat (map (found_in_dir env base) walk))))"
  using assms
proof (induction walk arbitrary: acc)
  case Nil
  then show ?case by simp
next
  case (Cons t walk)
  obtain root_dir dirs files where t: "t = (root_dir, dirs, files)" by (cases t)
  show ?case
  proof (cases "str_in ''.git'' root_dir")
    case True
    with Cons t show ?thesis by (simp add: found_in_dir_def)
  next
    case False
    let ?new = "map (source_file env base root_dir) (filter supported files)"
    have fd: "found_in_dir env base t = ?new"
      using False t by (simp add: found_in_dir_def)
    note sf = scan_files_take[OF Cons.prems, of env base root_dir files]
    show ?thesis
    proof (cases "m \<le> int (length (acc @ ?new))")
      case full: True
      then have "take (nat m) (acc @ ?new @ concat (map (found_in_dir env base) walk)) =
                 take (nat m) (acc @ ?new)"
        by simp
      then show ?thesis using sf full False t fd by simp
    next
      case notfull: False
      then have "int (length (acc @ ?new)) < m" by simp
      from Cons.IH[OF this] sf notfull False t fd show ?thesis by simp
    qed
  qed
qed

section \<open>Properties of the analyzer and of the collection loop\<close>

lemma splitlines_from_length:
  "length (splitlines_from cur s) =
     count_linebreaks s + (if s = [] then (if cur = [] then 0 else 1)
                           else if is_linebreak (last s) then 0 else 1)"
  by (induction cur s rule: splitlines_from.induct) (auto simp: is_linebreak_def)

lemma splitlines_length:
  "content \<noteq> [] \<Longrightarrow>
   length (splitlines content) = count_linebreaks content + (if is_linebreak (last content) then 0 else 1)"
  by (simp add: splitlines_def splitlines_from_length)

lemma count_linebreaks_pos: "s \<noteq> [] \<Longrightarrow> is_linebreak (last s) \<Longrightarrow> 0 < count_linebreaks s"
  by (induction s rule: count_linebreaks.induct) (auto simp: is_linebreak_def)

lemma splitlines_length_pos: "content \<noteq> [] \<Longrightarrow> 0 < length (splitlines content)"
  using count_linebreaks_pos[of content] by (simp add: splitlines_length)

lemma splitlines_not_Nil: "content \<noteq> [] \<Longrightarrow> splitlines content \<noteq> []"
  using splitlines_length_pos[of content] by auto

lemma analyze_file_Some:
  assumes "read_text env (file_local_path f) = Inr content" "content \<noteq> []"
    and "lizard_analyze_file env (file_local_path f) = Inr function_list"
  shows "analyze_file env f =
     Some \<lparr>metric_name = file_name f,
           metric_size = max 1 (int (length (splitlines content))),
           metric_complexity = py_or (sum_list function_list) 1,
           metric_churn = 1\<rparr>"
  using assms splitlines_not_Nil[of content] by (simp add: analyze_file_def Let_def)

lemma analyze_file_None_iff:
  "analyze_file env f = None \<longleftrightarrow>
     (case read_text env (file_local_path f) of
        Inl e \<Rightarrow> True
      | Inr content \<Rightarrow> content = [] \<or> isl (lizard_analyze_file env (file_local_path f)))"
  using splitlines_not_Nil
  by (auto simp: analyze_file_def Let_def split: sum.splits)

lemma py_or_max: "0 \<le> a \<Longrightarrow> py_or a 1 = max 1 a"
  by (simp add: py_or_def)

lemma collect_results_length: "length (collect_results r fs) \<le> length fs"
  by (induction fs) (auto split: sum.splits option.splits)

lemma collect_results_drop:
  "r F = Inl e \<or> r F = Inr None \<Longrightarrow> collect_results r (removeAll F fs) = collect_results r fs"
  by (induction fs) (auto split: sum.splits option.splits)

lemma collect_results_Nil: "collect_results r fs = [] \<longleftrightarrow> (\<forall>f \<in> set fs. \<forall>m. r f \<noteq> Inr (Some m))"
  by (induction fs) (auto split: sum.splits option.splits)

section \<open>Properties of the assembly loop\<close>

lemma assemble_from_short:
  "length rects < i + length ms \<Longrightarrow> ms \<noteq> [] \<Longrightarrow>
   assemble_from i ms rects = Inl (Raise IndexError ''list index out of range'')"
proof (induction ms arbitrary: i)
  case Nil
  then show ?case by simp
next
  case (Cons m ms)
  show ?case
  proof (cases "i < length rects")
    case True
    with Cons.prems have "length rects < Suc i + length ms" "ms \<noteq> []" by auto
    from Cons.IH[OF this] True show ?thesis by (simp add: subscript_def)
  next
    case False
    then show ?thesis by (simp add: subscript_def)
  qed
qed

lemma assemble_from_ok:
  "i + length ms \<le> length rects \<Longrightarrow> assemble_from i ms rects = Inr (map2 make_tile ms (drop i rects))"
proof (induction ms arbitrary: i)
  case Nil
  then show ?case by simp
next
  case (Cons m ms)
  then have "i < length rects" by simp
  then have "drop i rects = rects ! i # drop (Suc i) rects" by (simp add: Cons_nth_drop_Suc)
  with Cons show ?case by (simp add: subscript_def)
qed

lemma zip_take_left: "zip xs (take (length xs) ys) = zip xs ys"
proof (induction xs arbitrary: ys)
  case Nil
  then show ?case by simp
next
  case (Cons x xs)
  then show ?case by (cases ys) simp_all
qed

lemma source_file_os_walk [simp]:
  "source_file (env\<lparr>os_walk := w\<rparr>) base root_dir f = source_file env base root_dir f"
  by (simp add: source_file_def)

lemma scan_files_os_walk [simp]:
  "scan_files (env\<lparr>os_walk := w\<rparr>) base m root_dir files acc = scan_files env base m root_dir files acc"
  by (induction files arbitrary: acc) (simp_all add: Let_def)

lemma scan_dirs_os_walk [simp]:
  "scan_dirs (env\<lparr>os_walk := w\<rparr>) base m walk acc = scan_dirs env base m walk acc"
  by (induction walk arbitrary: acc) (auto split: prod.splits bool.splits)

lemma future_result_None: "analyze_file env F = None \<Longrightarrow> future_result env F = Inr None"
  by (simp add: future_result_def)

lemma collect_results_future:
  "collect_results (future_result env) fs =
     map (\<lambda>f. the (analyze_file env f)) (filter (\<lambda>f. analyze_file env f \<noteq> None) fs)"
  by (induction fs) (auto simp: future_result_def split: option.splits)

text \<open>
  The loop over lists of any lengths: with fewer rectangles than metrics the subscript
  \<open>rects[i]\<close> raises \<open>IndexError\<close>; with at least as many it emits one tile per metric
  from the first rectangles and does not look at the others.
\<close>

lemma assemble_lengths:
  "(length rects < length files_to_render \<longrightarrow>
      assemble files_to_render rects = Inl (Raise IndexError ''list index out of range'')) \<and>
   (length files_to_render \<le> length rects \<longrightarrow>
      assemble files_to_render rects =
        Inr (map2 make_tile files_to_render (take (length files_to_render) rects)))"
proof (intro conjI impI)
  assume short: "length rects < length files_to_render"
  then have "files_to_render \<noteq> []" by auto
  with short show "assemble files_to_render rects = Inl (Raise IndexError ''list index out of range'')"
    unfolding assemble_def by (intro assemble_from_short) simp_all
next
  assume "length files_to_render \<le> length rects"
  then have "assemble files_to_render rects = Inr (map2 make_tile files_to_render rects)"
    unfolding assemble_def using assemble_from_ok[of 0 files_to_render rects] by simp
  then show "assemble files_to_render rects =
        Inr (map2 make_tile files_to_render (take (length files_to_render) rects))"
    by (simp only: zip_take_left)
qed

section \<open>Properties of the layout\<close>

lemma grow_le: "grow row vs dx dy \<le> length vs"
  by (induction row vs dx dy rule: grow.induct) auto

lemma length_layoutrow_from: "length (layoutrow_from vs x y w) = length vs"
  by (induction vs arbitrary: y) auto

lemma length_layoutcol_from: "length (layoutcol_from vs x y h) = length vs"
  by (induction vs arbitrary: x) auto

lemma length_layout: "length (layout row x y dx dy) = length row"
  by (simp add: layout_def length_layoutrow_from length_layoutcol_from)

lemma length_squarified: "length (squarified vs x y dx dy) = length vs"
proof (induction vs x y dx dy rule: squarified.induct)
  case (1 x y dx dy)
  then show ?case by simp
next
  case (2 v vs x y dx dy)
  have "grow [v] vs dx dy \<le> length vs" by (rule grow_le)
  then show ?case
    using 2 by (auto simp: Let_def length_layout split: prod.splits)
qed

lemma area_layoutrow_from:
  "0 < w \<Longrightarrow> map area (layoutrow_from vs x y w) = vs"
  by (induction vs arbitrary: y) (auto simp: area_def)

lemma area_layoutcol_from:
  "0 < h \<Longrightarrow> map area (layoutcol_from vs x y h) = vs"
  by (induction vs arbitrary: x) (auto simp: area_def)

lemma inside_layoutrow_from:
  assumes "0 < w" and "\<forall>v \<in> set vs. 0 < v" and "r \<in> set (layoutrow_from vs x y w)"
  shows "rect_x r = x \<and> rect_dx r = w \<and> y \<le> rect_y r \<and>
         rect_y r + rect_dy r \<le> y + sum_list vs / w \<and> 0 < rect_dy r"
  using assms
proof (induction vs arbitrary: y)
  case Nil
  then show ?case by simp
next
  case (Cons v vs)
  have pos: "0 < v / w" "0 \<le> sum_list vs / w"
    using Cons.prems by (auto simp: sum_list_nonneg less_imp_le)
  show ?case
  proof (cases "r = \<lparr>rect_x = x, rect_y = y, rect_dx = w, rect_dy = v / w\<rparr>")
    case True
    then show ?thesis using pos by (simp add: add_divide_distrib)
  next
    case False
    with Cons.prems have "r \<in> set (layoutrow_from vs x (y + v / w) w)" by simp
    from Cons.IH[OF Cons.prems(1) _ this] Cons.prems(2) pos
    show ?thesis by (simp add: add_divide_distrib)
  qed
qed

lemma inside_layoutcol_from:
  assumes "0 < h" and "\<forall>v \<in> set vs. 0 < v" and "r \<in> set (layoutcol_from vs x y h)"
  shows "rect_y r = y \<and> rect_dy r = h \<and> x \<le> rect_x r \<and>
         rect_x r + rect_dx r \<le> x + sum_list vs / h \<and> 0 < rect_dx r"
  using assms
proof (induction vs arbitrary: x)
  case Nil
  then show ?case by simp
next
  case (Cons v vs)
  have pos: "0 < v / h" "0 \<le> sum_list vs / h"
    using Cons.prems by (auto simp: sum_list_nonneg less_imp_le)
  show ?case
  proof (cases "r = \<lparr>rect_x = x, rect_y = y, rect_dx = v / h, rect_dy = h\<rparr>")
    case True
    then show ?thesis using pos by (simp add: add_divide_distrib)
  next
    case False
    with Cons.prems have "r \<in> set (layoutcol_from vs (x + v / h) y h)" by simp
    from Cons.IH[OF Cons.prems(1) _ this] Cons.prems(2) pos
    show ?thesis by (simp add: add_divide_distrib)
  qed
qed

lemma apart_layoutrow_from:
  assumes "0 < w" and "\<forall>v \<in> set vs. 0 < v"
  shows "sorted_wrt apart (layoutrow_from vs x y w)"
  using assms
proof (induction vs arbitrary: y)
  case Nil
  then show ?case by simp
next
  case (Cons v vs)
  have "apart \<lparr>rect_x = x, rect_y = y, rect_dx = w, rect_dy = v / w\<rparr> r"
    if "r \<in> set (layoutrow_from vs x (y + v / w) w)" for r
    using inside_layoutrow_from[OF Cons.prems(1) _ that] Cons.prems(2)
    by (simp add: overlap_def)
  then show ?case using Cons by simp
qed

lemma apart_layoutcol_from:
  assumes "0 < h" and "\<forall>v \<in> set vs. 0 < v"
  shows "sorted_wrt apart (layoutcol_from vs x y h)"
  using assms
proof (induction vs arbitrary: x)
  case Nil
  then show ?case by simp
next
  case (Cons v vs)
  have "apart \<lparr>rect_x = x, rect_y = y, rect_dx = v / h, rect_dy = h\<rparr> r"
    if "r \<in> set (layoutcol_from vs (x + v / h) y h)" for r
    using inside_layoutcol_from[OF Cons.prems(1) _ that] Cons.prems(2)
    by (simp add: overlap_def)
  then show ?case using Cons by simp
qed

lemma sum_list_pos_real:
  fixes vs :: "real list"
  shows "vs \<noteq> [] \<Longrightarrow> \<forall>v \<in> set vs. 0 < v \<Longrightarrow> 0 < sum_list vs"
  by (induction vs) (auto simp: add_pos_nonneg sum_list_nonneg less_imp_le)

lemma area_layout:
  assumes "row \<noteq> []" and "\<forall>v \<in> set row. 0 < v" and "0 < dx" and "0 < dy"
  shows "map area (layout row x y dx dy) = row"
proof -
  have "0 < sum_list row" using assms(1,2) by (rule sum_list_pos_real)
  then show ?thesis
    using assms(3,4) by (simp add: layout_def area_layoutrow_from area_layoutcol_from)
qed

lemma apart_layout:
  assumes "row \<noteq> []" and "\<forall>v \<in> set row. 0 < v" and "0 < dx" and "0 < dy"
  shows "sorted_wrt apart (layout row x y dx dy)"
proof -
  have "0 < sum_list row" using assms(1,2) by (rule sum_list_pos_real)
  then show ?thesis
    using assms by (simp add: layout_def apart_layoutrow_from apart_layoutcol_from)
qed

lemma layout_leftover:
  assumes "row \<noteq> []" and "\<forall>v \<in> set row. 0 < v" and "0 < dx" and "0 < dy"
    and "sum_list row \<le> dx * dy"
    and "leftover row x y dx dy = (x', y', dx', dy')"
    and "r \<in> set (layout row x y dx dy)"
  shows "inside r x y dx dy"
    and "inside b x' y' dx' dy' \<Longrightarrow> apart r b"
    and "inside b x' y' dx' dy' \<Longrightarrow> inside b x y dx dy"
    and "dx' * dy' = dx * dy - sum_list row"
    and "sum_list row < dx * dy \<Longrightarrow> 0 < dx' \<and> 0 < dy'"
    and "0 < rect_dx r \<and> 0 < rect_dy r"
proof -
  let ?c = "sum_list row"
  have c: "0 < ?c" using assms(1,2) by (rule sum_list_pos_real)
  have le: "?c \<le> dx * dy" "?c \<le> dy * dx"
    using assms(5) by (simp_all add: mult.commute)
  show "inside r x y dx dy"
  proof (cases "dx \<ge> dy")
    case True
    have w: "0 < ?c / dy" "?c / dy \<le> dx" "?c / (?c / dy) = dy"
      using c assms(3,4) le by (simp_all add: pos_divide_le_eq)
    from assms(7) True have "r \<in> set (layoutrow_from row x y (?c / dy))"
      by (simp add: layout_def)
    from inside_layoutrow_from[OF w(1) assms(2) this] w show ?thesis
      by (simp add: inside_def)
  next
    case False
    have h: "0 < ?c / dx" "?c / dx \<le> dy" "?c / (?c / dx) = dx"
      using c assms(3,4) le by (simp_all add: pos_divide_le_eq)
    from assms(7) False have "r \<in> set (layoutcol_from row x y (?c / dx))"
      by (simp add: layout_def)
    from inside_layoutcol_from[OF h(1) assms(2) this] h show ?thesis
      by (simp add: inside_def)
  qed
  show "0 < rect_dx r \<and> 0 < rect_dy r"
  proof (cases "dx \<ge> dy")
    case True
    have w: "0 < ?c / dy" using c assms(4) by simp
    from assms(7) True have "r \<in> set (layoutrow_from row x y (?c / dy))"
      by (simp add: layout_def)
    from inside_layoutrow_from[OF w assms(2) this] w show ?thesis by simp
  next
    case False
    have h: "0 < ?c / dx" using c assms(3) by simp
    from assms(7) False have "r \<in> set (layoutcol_from row x y (?c / dx))"
      by (simp add: layout_def)
    from inside_layoutcol_from[OF h assms(2) this] h show ?thesis by simp
  qed
  show "apart r b" if b: "inside b x' y' dx' dy'"
  proof (cases "dx \<ge> dy")
    case True
    have w: "0 < ?c / dy" using c assms(4) by simp
    from assms(7) True have "r \<in> set (layoutrow_from row x y (?c / dy))"
      by (simp add: layout_def)
    from inside_layoutrow_from[OF w assms(2) this] b assms(6) True show ?thesis
      by (auto simp: inside_def overlap_def leftover_def)
  next
    case False
    have h: "0 < ?c / dx" using c assms(3) by simp
    from assms(7) False have "r \<in> set (layoutcol_from row x y (?c / dx))"
      by (simp add: layout_def)
    from inside_layoutcol_from[OF h assms(2) this] b assms(6) False show ?thesis
      by (auto simp: inside_def overlap_def leftover_def)
  qed
  show "inside b x y dx dy" if b: "inside b x' y' dx' dy'"
  proof (cases "dx \<ge> dy")
    case True
    have "0 < ?c / dy" using c assms(4) by simp
    with b assms(6) True show ?thesis
      by (auto simp: inside_def leftover_def)
  next
    case False
    have "0 < ?c / dx" using c assms(3) by simp
    with b assms(6) False show ?thesis
      by (auto simp: inside_def leftover_def)
  qed
  show "dx' * dy' = dx * dy - ?c"
    using assms(3,4,6) by (auto simp: leftover_def left_diff_distrib right_diff_distrib split: if_splits)
  show "0 < dx' \<and> 0 < dy'" if "?c < dx * dy"
  proof -
    have "?c < dx * dy" "?c < dy * dx" using that by (simp_all add: mult.commute)
    then show ?thesis
      using assms(3,4,6) by (auto simp: leftover_def pos_divide_less_eq split: if_splits)
  qed
qed

lemma squarified_Cons:
  assumes "leftover (v # take (grow [v] vs dx dy) vs) x y dx dy = (x', y', dx', dy')"
  shows "squarified (v # vs) x y dx dy =
           layout (v # take (grow [v] vs dx dy) vs) x y dx dy @
           squarified (drop (grow [v] vs dx dy) vs) x' y' dx' dy'"
  using assms by (simp add: Let_def)

lemma squarified_tiles:
  assumes "\<forall>v \<in> set vs. 0 < v"
    and "vs \<noteq> [] \<Longrightarrow> 0 < dx \<and> 0 < dy \<and> sum_list vs = dx * dy"
  shows "map area (squarified vs x y dx dy) = vs \<and>
         (\<forall>r \<in> set (squarified vs x y dx dy). inside r x y dx dy) \<and>
         sorted_wrt apart (squarified vs x y dx dy) \<and>
         (\<forall>r \<in> set (squarified vs x y dx dy). 0 < rect_dx r \<and> 0 < rect_dy r)"
  using assms
proof (induction "length vs" arbitrary: vs x y dx dy rule: less_induct)
  case less
  show ?case
  proof (cases vs)
    case Nil
    then show ?thesis by simp
  next
    case (Cons v rest)
    define k where "k = grow [v] rest dx dy"
    define row where "row = v # take k rest"
    define remaining where "remaining = drop k rest"
    obtain x' y' dx' dy' where lo: "leftover row x y dx dy = (x', y', dx', dy')"
      by (cases "leftover row x y dx dy") auto
    have sq: "squarified vs x y dx dy =
                layout row x y dx dy @ squarified remaining x' y' dx' dy'"
      using lo unfolding Cons row_def remaining_def k_def by (rule squarified_Cons)
    have d: "0 < dx" "0 < dy" "sum_list vs = dx * dy"
      using less.prems(2) Cons by simp_all
    have split: "vs = row @ remaining"
      by (simp add: Cons row_def remaining_def)
    have row: "row \<noteq> []" "\<forall>v \<in> set row. 0 < v"
      using less.prems(1) split by (auto simp: row_def)
    have rem: "\<forall>v \<in> set remaining. 0 < v"
      using less.prems(1) split by auto
    have sums: "sum_list row + sum_list remaining = dx * dy"
      using d(3) split by simp
    have "0 \<le> sum_list remaining"
      using rem by (simp add: sum_list_nonneg less_imp_le)
    then have le: "sum_list row \<le> dx * dy" using sums by simp
    note lay = layout_leftover[OF row d(1,2) le lo]
    obtain r0 where r0: "r0 \<in> set (layout row x y dx dy)"
      using row(1) length_layout[of row x y dx dy] by (cases "layout row x y dx dy") auto
    have within: "inside b x y dx dy" if "inside b x' y' dx' dy'" for b
      using lay(3)[OF r0 that] .
    have rem_inv: "0 < dx' \<and> 0 < dy' \<and> sum_list remaining = dx' * dy'" if "remaining \<noteq> []"
    proof -
      have "0 < sum_list remaining" using that rem by (rule sum_list_pos_real)
      then have lt: "sum_list row < dx * dy" using sums by simp
      from lay(4)[OF r0] lay(5)[OF r0 lt] sums show ?thesis by simp
    qed
    have "length remaining < length vs"
      by (simp add: split row_def)
    from less.hyps[OF this rem rem_inv, of x' y']
    have ih: "map area (squarified remaining x' y' dx' dy') = remaining"
      "\<forall>r \<in> set (squarified remaining x' y' dx' dy'). inside r x' y' dx' dy'"
      "sorted_wrt apart (squarified remaining x' y' dx' dy')"
      "\<forall>r \<in> set (squarified remaining x' y' dx' dy'). 0 < rect_dx r \<and> 0 < rect_dy r"
      by simp_all
    have "map area (squarified vs x y dx dy) = row @ remaining"
      unfolding sq using ih(1) area_layout[OF row d(1,2)] by simp
    then have 1: "map area (squarified vs x y dx dy) = vs"
      using split by simp
    have 2: "\<forall>r \<in> set (squarified vs x y dx dy). inside r x y dx dy"
      unfolding sq using ih(2) lay(1) within by auto
    have 3: "sorted_wrt apart (squarified vs x y dx dy)"
      unfolding sq using ih(2,3) apart_layout[OF row d(1,2)] lay(2)
      by (auto simp: sorted_wrt_append)
    have 4: "\<forall>r \<in> set (squarified vs x y dx dy). 0 < rect_dx r \<and> 0 < rect_dy r"
      unfolding sq using ih(4) lay(6) by auto
    from 1 2 3 4 show ?thesis by simp
  qed
qed

lemma sum_list_normalize_sizes:
  assumes "sum_list sizes \<noteq> 0"
  shows "sum_list (normalize_sizes sizes dx dy) = dx * dy"
proof -
  have "sum_list (map (\<lambda>s. s * c / t) xs) = sum_list xs * c / t" for c t :: real and xs
    by (induction xs) (simp_all add: distrib_right add_divide_distrib)
  then show ?thesis using assms by (simp add: normalize_sizes_def)
qed

lemma layout_step_single:
  assumes "0 < s" and "0 < a"
  shows "layout_step [s] a = [\<lparr>rect_x = 0, rect_y = 0, rect_dx = a, rect_dy = a\<rparr>]"
  using assms by (simp add: layout_step_def normalize_sizes_def layout_def leftover_def)

lemma overlap_common_point:
  assumes "overlap a b"
    and "0 < rect_dx a" "0 < rect_dy a" "0 < rect_dx b" "0 < rect_dy b"
  shows "\<exists>px py. rect_x a < px \<and> px < rect_x a + rect_dx a \<and>
                 rect_y a < py \<and> py < rect_y a + rect_dy a \<and>
                 rect_x b < px \<and> px < rect_x b + rect_dx b \<and>
                 rect_y b < py \<and> py < rect_y b + rect_dy b"
proof -
  have "max (rect_x a) (rect_x b) < min (rect_x a + rect_dx a) (rect_x b + rect_dx b)"
    using assms by (auto simp: overlap_def)
  then obtain px where
    "max (rect_x a) (rect_x b) < px" "px < min (rect_x a + rect_dx a) (rect_x b + rect_dx b)"
    using dense by blast
  moreover have "max (rect_y a) (rect_y b) < min (rect_y a + rect_dy a) (rect_y b + rect_dy b)"
    using assms by (auto simp: overlap_def)
  then obtain py where
    "max (rect_y a) (rect_y b) < py" "py < min (rect_y a + rect_dy a) (rect_y b + rect_dy b)"
    using dense by blast
  ultimately show ?thesis by auto
qed

lemma common_point_overlap:
  assumes "rect_x a < px" "px < rect_x a + rect_dx a" "rect_y a < py" "py < rect_y a + rect_dy a"
    and "rect_x b < px" "px < rect_x b + rect_dx b" "rect_y b < py" "py < rect_y b + rect_dy b"
  shows "overlap a b"
  using assms by (auto simp: overlap_def)

section \<open>The example runs\<close>

lemma example_url_parsed: "get_github_repo_info example_url = Inr (''o'', ''r'')"
  by (simp add: get_github_repo_info_def strip_github_url_def string_simps subscript_def
      example_url_def)

lemma unreadable_env_files:
  "get_source_files_from_local unreadable_env ''/tmp/repo'' MAX_FILES = (example_files, False)"
  by (simp add: get_source_files_from_local_def example_simps supported_def
        SUPPORTED_EXTENSIONS_def endswith_def startswith_def source_file_def os_path_join_def
        MAX_FILES_def)

lemma empty_env_files:
  "get_source_files_from_local empty_env ''/tmp/repo'' MAX_FILES = ([], False)"
  by (simp add: get_source_files_from_local_def empty_env_def)

lemma unreadable_env_clone:
  "clone_repository unreadable_env example_url (GITHUB_TOKEN unreadable_env) = Inr ''/tmp/repo''"
  by (simp add: clone_repository_def unreadable_env_def example_env_def)

lemma empty_env_clone:
  "clone_repository empty_env example_url (GITHUB_TOKEN empty_env) = Inr ''/tmp/repo''"
  by (simp add: clone_repository_def empty_env_def example_env_def)

lemma unreadable_env_analyze: "analyze_file unreadable_env f = None"
  by (simp add: analyze_file_def unreadable_env_def)

lemma unreadable_env_stage:
  "analysis_stage unreadable_env example_files =
     Inl (Raise Exception ''No analyzable files could be processed.'')"
proof -
  have "collect_results (future_result unreadable_env) fs = []" for fs
    by (induction fs) (simp_all add: future_result_def unreadable_env_analyze)
  then show ?thesis
    by (simp add: analysis_stage_def example_files_def)
qed

lemma city_stage: "analysis_stage city_env city_files = Inr city_metrics"
  by (simp add: analysis_stage_def future_result_def analyze_file_def city_env_def city_files_def
      city_metrics_def example_file_def splitlines_def is_linebreak_def py_or_def)


lemma layout_four:
  "layout_step [10, 20, 30, 40] 10 =
     [\<lparr>rect_x = 0, rect_y = 0, rect_dx = 3, rect_dy = 10 / 3\<rparr>,
      \<lparr>rect_x = 0, rect_y = 10 / 3, rect_dx = 3, rect_dy = 20 / 3\<rparr>,
      \<lparr>rect_x = 3, rect_y = 0, rect_dx = 7, rect_dy = 30 / 7\<rparr>,
      \<lparr>rect_x = 3, rect_y = 30 / 7, rect_dx = 7, rect_dy = 40 / 7\<rparr>]"
  by (simp add: layout_step_def normalize_sizes_def layout_def leftover_def worst_ratio_def Let_def)

section \<open>The layout step\<close>

text \<open>
  Claim C1. For every non-empty list of positive sizes and every positive side \<open>A\<close> of
  the target square, the layout step returns exactly one rectangle per size; the areas
  of the rectangles are not negative and sum to \<open>A\<^sup>2\<close>; no two rectangles overlap; and
  the area of the rectangle at index \<open>i\<close> is the size at index \<open>i\<close> times the constant
  \<open>A\<^sup>2 / \<Sum>size\<close>. Every rectangle also lies inside the target square and has positive
  sides. Two rectangles overlap when their interiors have a point in common (lemmas
  \<open>overlap_common_point\<close> and \<open>common_point_overlap\<close>).
\<close>

theorem layout_step_tiles:
  assumes "sizes \<noteq> []" and "\<forall>s \<in> set sizes. 0 < s" and "0 < a"
  shows "length (layout_step sizes a) = length sizes \<and>
         (\<forall>r \<in> set (layout_step sizes a). 0 \<le> area r) \<and>
         sum_list (map area (layout_step sizes a)) = a\<^sup>2 \<and>
         (\<forall>i < length sizes. \<forall>j < length sizes.
            i \<noteq> j \<longrightarrow> \<not> overlap (layout_step sizes a ! i) (layout_step sizes a ! j)) \<and>
         (\<forall>i < length sizes.
            area (layout_step sizes a ! i) = sizes ! i * (a\<^sup>2 / sum_list sizes)) \<and>
         (\<forall>r \<in> set (layout_step sizes a). inside r 0 0 a a) \<and>
         (\<forall>r \<in> set (layout_step sizes a). 0 < rect_dx r \<and> 0 < rect_dy r)"
proof -
  let ?vs = "normalize_sizes sizes a a"
  let ?rs = "layout_step sizes a"
  have t: "0 < sum_list sizes" using assms(1,2) by (rule sum_list_pos_real)
  have pos: "\<forall>v \<in> set ?vs. 0 < v"
    using assms(2,3) t by (auto simp: normalize_sizes_def)
  have sum: "sum_list ?vs = a * a"
    using t by (simp add: sum_list_normalize_sizes)
  have tiles: "map area ?rs = ?vs" "\<forall>r \<in> set ?rs. inside r 0 0 a a" "sorted_wrt apart ?rs"
    "\<forall>r \<in> set ?rs. 0 < rect_dx r \<and> 0 < rect_dy r"
    using squarified_tiles[OF pos, of a a 0 0] assms(3) sum by (simp_all add: layout_step_def)
  have len: "length ?rs = length sizes"
    by (simp add: layout_step_def length_squarified normalize_sizes_def)
  have ar: "area (?rs ! i) = sizes ! i * (a\<^sup>2 / sum_list sizes)" if "i < length sizes" for i
  proof -
    have "area (?rs ! i) = map area ?rs ! i" using that len by simp
    also have "\<dots> = ?vs ! i" by (simp only: tiles(1))
    also have "\<dots> = sizes ! i * (a\<^sup>2 / sum_list sizes)"
      using that by (simp add: normalize_sizes_def power2_eq_square)
    finally show ?thesis .
  qed
  have nonneg: "0 \<le> area r" if "r \<in> set ?rs" for r
  proof -
    have "area r \<in> set (map area ?rs)" using that by simp
    then have "area r \<in> set ?vs" by (simp only: tiles(1))
    with pos show ?thesis by (auto simp: less_imp_le)
  qed
  have ap: "\<not> overlap (?rs ! i) (?rs ! j)"
    if "i < length sizes" "j < length sizes" "i \<noteq> j" for i j
  proof (cases "i < j")
    case True
    then show ?thesis using tiles(3) that len by (simp add: sorted_wrt_iff_nth_less)
  next
    case False
    then have "j < i" using that(3) by simp
    then have "\<not> overlap (?rs ! j) (?rs ! i)"
      using tiles(3) that len by (simp add: sorted_wrt_iff_nth_less)
    then show ?thesis by (auto simp: overlap_def)
  qed
  have total: "sum_list (map area ?rs) = a\<^sup>2"
    by (simp only: tiles(1) sum power2_eq_square)
  from len nonneg total ap ar tiles(2) tiles(4) show ?thesis by blast
qed

theorem layout_step_tiles_witness:
  "[10, 20, 30, 40] \<noteq> ([] :: real list) \<and> (0::real) < 10 \<and>
   layout_step [10, 20, 30, 40] 10 =
     [\<lparr>rect_x = 0, rect_y = 0, rect_dx = 3, rect_dy = 10 / 3\<rparr>,
      \<lparr>rect_x = 0, rect_y = 10 / 3, rect_dx = 3, rect_dy = 20 / 3\<rparr>,
      \<lparr>rect_x = 3, rect_y = 0, rect_dx = 7, rect_dy = 30 / 7\<rparr>,
      \<lparr>rect_x = 3, rect_y = 30 / 7, rect_dx = 7, rect_dy = 40 / 7\<rparr>] \<and>
   length (layout_step [10, 20, 30, 40] 10) = 4 \<and>
   sum_list (map area (layout_step [10, 20, 30, 40] 10)) = 10\<^sup>2 \<and>
   \<not> overlap (layout_step [10, 20, 30, 40] 10 ! 1) (layout_step [10, 20, 30, 40] 10 ! 3) \<and>
   area (layout_step [10, 20, 30, 40] 10 ! 3) = 40"
proof -
  have n: "[10, 20, 30, 40] \<noteq> ([] :: real list)" and a: "(0::real) < 10"
    and p: "\<forall>s \<in> set [10, 20, 30, 40 :: real]. 0 < s"
    by simp_all
  from layout_step_tiles [OF n p a]
  show ?thesis using layout_four by (simp add: area_def overlap_def)
qed

section \<open>The analysis scheduler\<close>

text \<open>
  Claim C2. Whatever order the futures complete in, a file whose analysis fails or gives
  "not analyzable" is dropped and the batch goes on. The file fails when it cannot be
  read, when its content is empty or when lizard raises on it: in each case
  \<open>analyze_file\<close> catches the failure and returns \<open>None\<close>. As long as one other file is
  analyzable (it can be read, is not empty and lizard returns its functions), the
  scheduling step returns a non-empty result list, the list is what the completed files
  other than the failing one give, in completion order, and it is never longer than the
  list of input files.
\<close>

theorem failing_file_is_dropped:
  assumes "mset (as_completed env files) = mset files"
    and "(\<exists>e. read_text env (file_local_path F) = Inl e) \<or>
         read_text env (file_local_path F) = Inr [] \<or>
         (\<exists>e. lizard_analyze_file env (file_local_path F) = Inl e)"
    and "G \<in> set files"
    and "read_text env (file_local_path G) = Inr content" and "content \<noteq> []"
    and "lizard_analyze_file env (file_local_path G) = Inr function_list"
  shows "analyze_file env F = None \<and>
         (\<exists>files_to_render.
           analysis_stage env files = Inr files_to_render \<and>
           files_to_render \<noteq> [] \<and>
           length files_to_render \<le> length files \<and>
           files_to_render =
             collect_results (future_result env) (removeAll F (as_completed env files)) \<and>
           files_to_render =
             map (\<lambda>f. the (analyze_file env f))
               (filter (\<lambda>f. analyze_file env f \<noteq> None) (as_completed env files)))"
proof -
  let ?done = "as_completed env files"
  let ?rs = "collect_results (future_result env) ?done"
  have F: "analyze_file env F = None"
    using assms(2) by (auto simp: analyze_file_None_iff split: sum.splits)
  have G: "analyze_file env G \<noteq> None"
    using analyze_file_Some[OF assms(4-6)] by simp
  have len: "length ?done = length files"
    using assms(1) by (rule mset_eq_length)
  have "G \<in> set ?done"
    using assms(1,3) mset_eq_setD by blast
  moreover obtain m where "future_result env G = Inr (Some m)"
    using G by (auto simp: future_result_def)
  ultimately have ne: "?rs \<noteq> []"
    by (auto simp: collect_results_Nil)
  have "files \<noteq> []" using assms(3) by auto
  then have st: "analysis_stage env files = Inr ?rs"
    using ne by (simp add: analysis_stage_def Let_def)
  have le: "length ?rs \<le> length files"
    using collect_results_length[of "future_result env" ?done] len by simp
  have dr: "?rs = collect_results (future_result env) (removeAll F ?done)"
    using collect_results_drop[of "future_result env" F _ ?done] future_result_None[OF F]
    by simp
  have fl: "?rs = map (\<lambda>f. the (analyze_file env f))
               (filter (\<lambda>f. analyze_file env f \<noteq> None) ?done)"
    by (rule collect_results_future)
  from F st ne le dr fl show ?thesis by blast
qed

theorem failing_file_is_dropped_witness:
  "mset (as_completed city_env city_files) = mset city_files \<and>
   (\<exists>e. read_text city_env (file_local_path (example_file ''unreadable.py'')) = Inl e) \<and>
   read_text city_env (file_local_path (example_file ''empty.py'')) = Inr [] \<and>
   (\<exists>e. lizard_analyze_file city_env (file_local_path (example_file ''bad.py'')) = Inl e) \<and>
   example_file ''a.py'' \<in> set city_files \<and>
   read_text city_env (file_local_path (example_file ''a.py'')) = Inr [97, 10, 98] \<and>
   lizard_analyze_file city_env (file_local_path (example_file ''a.py'')) = Inr [] \<and>
   analyze_file city_env (example_file ''unreadable.py'') = None \<and>
   analyze_file city_env (example_file ''empty.py'') = None \<and>
   analyze_file city_env (example_file ''bad.py'') = None \<and>
   analysis_stage city_env city_files = Inr city_metrics \<and>
   map metric_name city_metrics = [''b.py'', ''a.py'']"
proof -
  have 1: "mset (as_completed city_env city_files) = mset city_files"
    by (simp add: city_env_def)
  have u: "\<exists>e. read_text city_env (file_local_path (example_file ''unreadable.py'')) = Inl e"
    by (simp add: city_env_def example_file_def)
  have e: "read_text city_env (file_local_path (example_file ''empty.py'')) = Inr []"
    by (simp add: city_env_def example_file_def)
  have b: "\<exists>e. lizard_analyze_file city_env (file_local_path (example_file ''bad.py'')) = Inl e"
    by (simp add: city_env_def example_file_def)
  have g: "example_file ''a.py'' \<in> set city_files"
    "read_text city_env (file_local_path (example_file ''a.py'')) = Inr [97, 10, 98]"
    "[97, 10, 98] \<noteq> ([] :: pystr)"
    "lizard_analyze_file city_env (file_local_path (example_file ''a.py'')) = Inr []"
    by (simp_all add: city_env_def city_files_def example_file_def)
  have n: "map metric_name city_metrics = [''b.py'', ''a.py'']"
    by (simp add: city_metrics_def)
  from failing_file_is_dropped [OF 1 disjI1 [OF u] g]
    failing_file_is_dropped [OF 1 disjI2 [OF disjI1 [OF e]] g]
    failing_file_is_dropped [OF 1 disjI2 [OF disjI2 [OF b]] g]
  show ?thesis using 1 u e b g n city_stage by simp
qed

section \<open>The complexity analyzer\<close>

text \<open>
  Claim C3. For a file that can be read, is not empty and that lizard analyses, the
  analyzer returns a metric whose complexity is the sum of the per-function cyclomatic
  complexities floored at 1: it is 1 when no function is detected and never 0. The
  per-function scores are counts, so none is negative.
\<close>

theorem complexity_sum_floor:
  assumes "read_text env (file_local_path f) = Inr content" and "content \<noteq> []"
    and "lizard_analyze_file env (file_local_path f) = Inr function_list"
    and "\<forall>c \<in> set function_list. 0 \<le> c"
  shows "\<exists>m. analyze_file env f = Some m \<and>
           metric_complexity m = max 1 (sum_list function_list) \<and>
           (function_list = [] \<longrightarrow> metric_complexity m = 1) \<and>
           metric_complexity m \<noteq> 0"
proof -
  have "0 \<le> sum_list function_list" using assms(4) by (simp add: sum_list_nonneg)
  then show ?thesis
    using analyze_file_Some[OF assms(1-3)] by (auto simp: py_or_max)
qed

theorem complexity_sum_floor_witness:
  "read_text example_env (file_local_path (example_file ''a.py'')) = Inr [97, 10, 98] \<and>
   lizard_analyze_file example_env (file_local_path (example_file ''a.py'')) = Inr [] \<and>
   map_option metric_complexity (analyze_file example_env (example_file ''a.py'')) = Some 1 \<and>
   read_text example_env (file_local_path (example_file ''b.py'')) = Inr [120] \<and>
   lizard_analyze_file example_env (file_local_path (example_file ''b.py'')) = Inr [2, 3] \<and>
   map_option metric_complexity (analyze_file example_env (example_file ''b.py'')) = Some 5"
proof -
  have a: "read_text example_env (file_local_path (example_file ''a.py'')) = Inr [97, 10, 98]"
    "lizard_analyze_file example_env (file_local_path (example_file ''a.py'')) = Inr []"
    by (simp_all add: example_simps)
  have b: "read_text example_env (file_local_path (example_file ''b.py'')) = Inr [120]"
    "lizard_analyze_file example_env (file_local_path (example_file ''b.py'')) = Inr [2, 3]"
    by (simp_all add: example_simps)
  have pa: "\<forall>c \<in> set ([] :: int list). 0 \<le> c" and pb: "\<forall>c \<in> set [2, 3 :: int]. 0 \<le> c"
    by simp_all
  from complexity_sum_floor [OF a(1) _ a(2) pa] complexity_sum_floor [OF b(1) _ b(2) pb]
  show ?thesis using a b by auto
qed

text \<open>
  Claim C4, as stated, fails: the content \<open>a\nb\<close>, two lines separated by one line
  break, gets line count 2, while the number of line breaks floored at 1 is 1.
\<close>

theorem lineCount_counterexample:
  "read_text example_env (file_local_path (example_file ''a.py'')) = Inr [97, 10, 98] \<and>
   map_option metric_size (analyze_file example_env (example_file ''a.py'')) = Some 2 \<and>
   max 1 (int (count_linebreaks [97, 10, 98])) = 1"
  by (simp add: example_simps analyze_file_def splitlines_def is_linebreak_def)

text \<open>
  Claim C4, amended. For every analyzable file the line count is the number of lines
  \<open>str.splitlines\<close> gives for the content: the number of line breaks, plus one when the
  content does not end in a line break. It is at least 1.
\<close>

theorem lineCount_is_number_of_lines:
  assumes "read_text env (file_local_path f) = Inr content" and "content \<noteq> []"
    and "lizard_analyze_file env (file_local_path f) = Inr function_list"
  shows "\<exists>m. analyze_file env f = Some m \<and>
           metric_size m = int (length (splitlines content)) \<and>
           metric_size m =
             int (count_linebreaks content) + (if is_linebreak (last content) then 0 else 1) \<and>
           1 \<le> metric_size m"
  using analyze_file_Some[OF assms] splitlines_length[OF assms(2)] splitlines_length_pos[OF assms(2)]
  by (auto simp: max_def)

theorem lineCount_is_number_of_lines_witness:
  "read_text example_env (file_local_path (example_file ''a.py'')) = Inr [97, 10, 98] \<and>
   lizard_analyze_file example_env (file_local_path (example_file ''a.py'')) = Inr [] \<and>
   map_option metric_size (analyze_file example_env (example_file ''a.py'')) = Some 2 \<and>
   int (count_linebreaks [97, 10, 98]) + (if is_linebreak (last [97, 10, 98]) then 0 else 1) = 2"
proof -
  have a: "read_text example_env (file_local_path (example_file ''a.py'')) = Inr [97, 10, 98]"
    "lizard_analyze_file example_env (file_local_path (example_file ''a.py'')) = Inr []"
    by (simp_all add: example_simps)
  have c: "int (count_linebreaks [97, 10, 98]) + (if is_linebreak (last [97, 10, 98]) then 0 else 1) = 2"
    by (simp add: is_linebreak_def)
  from lineCount_is_number_of_lines [OF a(1) _ a(2)]
  show ?thesis using a c by auto
qed

section \<open>Failure of the whole run\<close>

text \<open>
  Claim C5, as stated, fails in its second half: a run in which no file can be analysed
  and a run whose file set is empty both end with an exception of the class
  \<open>Exception\<close>, and both leave the script with exit status 1. Only the messages
  differ.
\<close>

theorem same_error_class_counterexample:
  "build_city_from_github unreadable_env example_url =
     Inl (Raise Exception ''No analyzable files could be processed.'') \<and>
   build_city_from_github empty_env example_url =
     Inl (Raise Exception ''No analyzable source files found in repository.'') \<and>
   raised_class (build_city_from_github unreadable_env example_url) =
     raised_class (build_city_from_github empty_env example_url) \<and>
   fst (main unreadable_env [''scanner2.py'', example_url]) =
     fst (main empty_env [''scanner2.py'', example_url])"
proof -
  have u: "build_city_from_github unreadable_env example_url =
     Inl (Raise Exception ''No analyzable files could be processed.'')"
    by (simp add: build_city_from_github_def example_url_parsed unreadable_env_clone
        unreadable_env_files unreadable_env_stage)
  have e: "build_city_from_github empty_env example_url =
     Inl (Raise Exception ''No analyzable source files found in repository.'')"
    by (simp add: build_city_from_github_def example_url_parsed empty_env_clone
        empty_env_files analysis_stage_def)
  show ?thesis by (simp add: u e main_def)
qed

text \<open>
  Claim C5, amended. When the URL parses and the clone succeeds, a run in which the file
  set is not empty and no file can be analysed fails with
  \<open>Exception("No analyzable files could be processed.")\<close>, and a run whose file set is
  empty fails with \<open>Exception("No analyzable source files found in repository.")\<close>: the
  two failures have the same exception class and the same exit status 1, and are told
  apart by their messages only.
\<close>

theorem no_analyzable_files_error:
  assumes "get_github_repo_info repo_url = Inr (owner, repo)"
    and "clone_repository env repo_url (GITHUB_TOKEN env) = Inr local_repo_path"
    and "files = fst (get_source_files_from_local env local_repo_path MAX_FILES)"
    and "mset (as_completed env files) = mset files"
  shows "(files \<noteq> [] \<and> (\<forall>f \<in> set files. analyze_file env f = None) \<longrightarrow>
            build_city_from_github env repo_url =
              Inl (Raise Exception ''No analyzable files could be processed.'') \<and>
            main env [script, repo_url] = (1, Some ''No analyzable files could be processed.'')) \<and>
         (files = [] \<longrightarrow>
            build_city_from_github env repo_url =
              Inl (Raise Exception ''No analyzable source files found in repository.'') \<and>
            main env [script, repo_url] =
              (1, Some ''No analyzable source files found in repository.''))"
proof (intro conjI impI)
  assume a: "files \<noteq> [] \<and> (\<forall>f \<in> set files. analyze_file env f = None)"
  have "set (as_completed env files) = set files"
    using assms(4) by (rule mset_eq_setD)
  with a have "collect_results (future_result env) (as_completed env files) = []"
    by (simp add: collect_results_Nil future_result_def)
  with a have "analysis_stage env files =
      Inl (Raise Exception ''No analyzable files could be processed.'')"
    by (simp add: analysis_stage_def)
  then show b: "build_city_from_github env repo_url =
      Inl (Raise Exception ''No analyzable files could be processed.'')"
    using assms(1-3) by (simp add: build_city_from_github_def)
  then show "main env [script, repo_url] = (1, Some ''No analyzable files could be processed.'')"
    by (simp add: main_def)
next
  assume "files = []"
  then have "analysis_stage env files =
      Inl (Raise Exception ''No analyzable source files found in repository.'')"
    by (simp add: analysis_stage_def)
  then show b: "build_city_from_github env repo_url =
      Inl (Raise Exception ''No analyzable source files found in repository.'')"
    using assms(1-3) by (simp add: build_city_from_github_def)
  then show "main env [script, repo_url] =
      (1, Some ''No analyzable source files found in repository.'')"
    by (simp add: main_def)
qed

theorem no_analyzable_files_error_witness:
  "get_github_repo_info example_url = Inr (''o'', ''r'') \<and>
   clone_repository unreadable_env example_url (GITHUB_TOKEN unreadable_env) = Inr ''/tmp/repo'' \<and>
   example_files = fst (get_source_files_from_local unreadable_env ''/tmp/repo'' MAX_FILES) \<and>
   mset (as_completed unreadable_env example_files) = mset example_files \<and>
   example_files \<noteq> [] \<and>
   analyze_file unreadable_env (example_file ''a.py'') = None \<and>
   analyze_file unreadable_env (example_file ''b.py'') = None \<and>
   analyze_file unreadable_env (example_file ''broken.py'') = None \<and>
   build_city_from_github unreadable_env example_url =
     Inl (Raise Exception ''No analyzable files could be processed.'') \<and>
   main unreadable_env [''scanner2.py'', example_url] =
     (1, Some ''No analyzable files could be processed.'') \<and>
   clone_repository empty_env example_url (GITHUB_TOKEN empty_env) = Inr ''/tmp/repo'' \<and>
   [] = fst (get_source_files_from_local empty_env ''/tmp/repo'' MAX_FILES) \<and>
   mset (as_completed empty_env []) = mset [] \<and>
   build_city_from_github empty_env example_url =
     Inl (Raise Exception ''No analyzable source files found in repository.'') \<and>
   main empty_env [''scanner2.py'', example_url] =
     (1, Some ''No analyzable source files found in repository.'')"
proof -
  have u1: "example_files = fst (get_source_files_from_local unreadable_env ''/tmp/repo'' MAX_FILES)"
    by (simp add: unreadable_env_files)
  have u2: "mset (as_completed unreadable_env example_files) = mset example_files"
    by (simp add: unreadable_env_def example_env_def)
  note u = u1 u2
  have e1: "[] = fst (get_source_files_from_local empty_env ''/tmp/repo'' MAX_FILES)"
    by (simp add: empty_env_files)
  have e2: "mset (as_completed empty_env []) = mset []"
    by (simp add: empty_env_def example_env_def)
  note e = e1 e2
  have n: "example_files \<noteq> []"
    by (simp add: example_files_def)
  from no_analyzable_files_error [OF example_url_parsed unreadable_env_clone u,
      of "''scanner2.py''"]
    no_analyzable_files_error [OF example_url_parsed empty_env_clone e, of "''scanner2.py''"]
  show ?thesis
    using example_url_parsed unreadable_env_clone empty_env_clone u e n
    by (simp add: unreadable_env_analyze)
qed

section \<open>The city assembler\<close>



section \<open>The visual encoder\<close>

text \<open>
  Claim C7. The colour of a tile depends on the complexity alone, by fixed ascending
  thresholds: at most 5 gives the first colour \<open>#00ffcc\<close>, 6 to 15 the second
  \<open>#00ff88\<close>, 16 to 30 the third \<open>#FFC300\<close>, 31 to 50 the fourth \<open>#ff9900\<close>, and more
  than 50 the fifth \<open>#ff4444\<close>.
\<close>

theorem color_of_thresholds:
  "(c \<le> 5 \<longrightarrow> color_of c = ''#00ffcc'') \<and>
   (6 \<le> c \<and> c \<le> 15 \<longrightarrow> color_of c = ''#00ff88'') \<and>
   (16 \<le> c \<and> c \<le> 30 \<longrightarrow> color_of c = ''#FFC300'') \<and>
   (31 \<le> c \<and> c \<le> 50 \<longrightarrow> color_of c = ''#ff9900'') \<and>
   (50 < c \<longrightarrow> color_of c = ''#ff4444'') \<and>
   tile_color (make_tile file_data r) = color_of (metric_complexity file_data)"
  by (simp add: color_of_def make_tile_def)

theorem color_of_boundaries_witness:
  "color_of 5 = ''#00ffcc'' \<and> color_of 6 = ''#00ff88'' \<and> color_of 15 = ''#00ff88'' \<and>
   color_of 16 = ''#FFC300'' \<and> color_of 30 = ''#FFC300'' \<and> color_of 31 = ''#ff9900'' \<and>
   color_of 50 = ''#ff9900'' \<and> color_of 51 = ''#ff4444'' \<and>
   tile_color (make_tile example_metric example_rect) = ''#00ffcc''"
  using color_of_thresholds [of 5 example_metric example_rect] color_of_thresholds [of 6]
    color_of_thresholds [of 15] color_of_thresholds [of 16] color_of_thresholds [of 30]
    color_of_thresholds [of 31] color_of_thresholds [of 50] color_of_thresholds [of 51]
  by (simp add: example_metric_def color_of_def)

section \<open>The file enumerator\<close>

text \<open>
  Claim C8. For a maximum file count of at least 1, and so for the configured
  \<open>MAX_FILES\<close>, the enumerator returns at most that many entries. It never raises: it
  returns the first \<open>max_files\<close> entries of what it would find without a limit, and it
  stops with the warning exactly when that many entries exist, returning then exactly
  \<open>max_files\<close> entries.
\<close>

theorem file_limit_respected:
  assumes "1 \<le> max_files"
  shows "int (length (fst (get_source_files_from_local env local_repo_path max_files))) \<le> max_files \<and>
         (snd (get_source_files_from_local env local_repo_path max_files) \<longrightarrow>
            int (length (fst (get_source_files_from_local env local_repo_path max_files))) = max_files) \<and>
         get_source_files_from_local env local_repo_path max_files =
           (take (nat max_files) (all_source_files env local_repo_path),
            max_files \<le> int (length (all_source_files env local_repo_path))) \<and>
         int (length (fst (get_source_files_from_local env local_repo_path MAX_FILES))) \<le> MAX_FILES"
proof -
  have m: "(1::int) \<le> MAX_FILES" by (simp add: MAX_FILES_def)
  have b: "int (length (fst (get_source_files_from_local env local_repo_path k))) \<le> k \<and>
         (snd (get_source_files_from_local env local_repo_path k) \<longrightarrow>
            int (length (fst (get_source_files_from_local env local_repo_path k))) = k)"
    if "1 \<le> k" for k
    unfolding get_source_files_from_local_def
    using scan_dirs_bound[of k "[]" env local_repo_path "os_walk env local_repo_path"] that
    by simp
  have t: "get_source_files_from_local env local_repo_path max_files =
           (take (nat max_files) (all_source_files env local_repo_path),
            max_files \<le> int (length (all_source_files env local_repo_path)))"
    unfolding get_source_files_from_local_def all_source_files_def
    using scan_dirs_take[of "[]" max_files env local_repo_path "os_walk env local_repo_path"] assms
    by simp
  from b[OF assms] b[OF m] t show ?thesis by simp
qed

theorem file_limit_respected_witness:
  "(1::int) \<le> 2 \<and>
   all_source_files example_env ''/tmp/repo'' = example_files \<and>
   get_source_files_from_local example_env ''/tmp/repo'' 2 =
     ([example_file ''a.py'', example_file ''b.py''], True) \<and>
   int (length (fst (get_source_files_from_local example_env ''/tmp/repo'' 2))) \<le> 2 \<and>
   get_source_files_from_local example_env ''/tmp/repo'' MAX_FILES = (example_files, False)"
proof -
  have h: "(1::int) \<le> 2" by simp
  have a: "all_source_files example_env ''/tmp/repo'' = example_files"
    by (simp add: all_source_files_def found_in_dir_def example_simps supported_def
        SUPPORTED_EXTENSIONS_def endswith_def startswith_def source_file_def os_path_join_def)
  have v: "get_source_files_from_local example_env ''/tmp/repo'' 2 =
     ([example_file ''a.py'', example_file ''b.py''], True)"
    by (simp add: get_source_files_from_local_def example_simps supported_def
        SUPPORTED_EXTENSIONS_def endswith_def startswith_def source_file_def os_path_join_def)
  have m: "get_source_files_from_local example_env ''/tmp/repo'' MAX_FILES = (example_files, False)"
    by (simp add: get_source_files_from_local_def example_simps supported_def
        SUPPORTED_EXTENSIONS_def endswith_def startswith_def source_file_def os_path_join_def
        MAX_FILES_def)
  from file_limit_respected [OF h, of example_env "''/tmp/repo''"]
  show ?thesis using a v m by simp
qed

text \<open>
  The limit is tested after the append, so the bound needs a limit of at least 1: called
  with the limit 0 the function returns one entry. The program calls it with
  \<open>MAX_FILES\<close> only.
\<close>

lemma file_limit_zero:
  "get_source_files_from_local example_env ''/tmp/repo'' 0 = ([example_file ''a.py''], True)"
  by (simp add: get_source_files_from_local_def example_simps supported_def
      SUPPORTED_EXTENSIONS_def endswith_def startswith_def source_file_def os_path_join_def)

text \<open>
  Claim C9. A directory whose walked path contains \<open>.git\<close> anywhere contributes nothing:
  the enumerator returns what it would return if the walk did not yield that directory at
  all, and every entry it returns comes from a directory whose path does not contain
  \<open>.git\<close>. The test is a substring test on the path, so \<open>.github\<close> is skipped too.
\<close>

theorem git_substring_directory_excluded:
  assumes "sublist ''.git'' root_dir"
    and "os_walk env local_repo_path = pre @ (root_dir, dirs, files) # post"
  shows "get_source_files_from_local env local_repo_path max_files =
           get_source_files_from_local (env\<lparr>os_walk := (\<lambda>top. pre @ post)\<rparr>)
             local_repo_path max_files \<and>
         (\<forall>e \<in> set (fst (get_source_files_from_local env local_repo_path max_files)).
            \<exists>(r, ds, fs) \<in> set (os_walk env local_repo_path).
              \<not> sublist ''.git'' r \<and>
              (\<exists>f \<in> set fs. supported f \<and> e = source_file env local_repo_path r f))"
proof
  show "get_source_files_from_local env local_repo_path max_files =
           get_source_files_from_local (env\<lparr>os_walk := (\<lambda>top. pre @ post)\<rparr>)
             local_repo_path max_files"
    using assms by (simp add: get_source_files_from_local_def scan_dirs_skip str_in_sublist)
next
  show "\<forall>e \<in> set (fst (get_source_files_from_local env local_repo_path max_files)).
            \<exists>(r, ds, fs) \<in> set (os_walk env local_repo_path).
              \<not> sublist ''.git'' r \<and>
              (\<exists>f \<in> set fs. supported f \<and> e = source_file env local_repo_path r f)"
    unfolding get_source_files_from_local_def
    using scan_dirs_mem[of _ env local_repo_path max_files "os_walk env local_repo_path" "[]"]
    by (simp add: str_in_sublist)
qed

theorem github_directory_excluded_witness:
  "sublist ''.git'' ''/tmp/repo/.github'' \<and>
   os_walk example_env ''/tmp/repo'' =
     [(''/tmp/repo'', [''.github''], [''a.py'', ''b.py'', ''broken.py'', ''README.md''])] @
     (''/tmp/repo/.github'', [], [''ci.py'']) # [] \<and>
   get_source_files_from_local example_env ''/tmp/repo'' MAX_FILES =
     get_source_files_from_local
       (example_env\<lparr>os_walk :=
          (\<lambda>top. [(''/tmp/repo'', [''.github''], [''a.py'', ''b.py'', ''broken.py'', ''README.md''])] @ [])\<rparr>)
       ''/tmp/repo'' MAX_FILES \<and>
   get_source_files_from_local example_env ''/tmp/repo'' MAX_FILES = (example_files, False)"
proof -
  have g: "sublist ''.git'' ''/tmp/repo/.github''"
    by (simp add: str_in_sublist [symmetric] startswith_def)
  have w: "os_walk example_env ''/tmp/repo'' =
     [(''/tmp/repo'', [''.github''], [''a.py'', ''b.py'', ''broken.py'', ''README.md''])] @
     (''/tmp/repo/.github'', [], [''ci.py'']) # []"
    by (simp add: example_env_def)
  have v: "get_source_files_from_local example_env ''/tmp/repo'' MAX_FILES = (example_files, False)"
    by (simp add: get_source_files_from_local_def example_simps supported_def
        SUPPORTED_EXTENSIONS_def endswith_def startswith_def source_file_def os_path_join_def
        MAX_FILES_def)
  from git_substring_directory_excluded [OF g w, of MAX_FILES]
  show ?thesis using g w v by simp
qed

section \<open>Repository URLs without a repository part\<close>

text \<open>
  Claim C10. When the URL, after the GitHub prefix and a trailing \<open>.git\<close> are stripped,
  contains no \<open>/\<close>, \<open>get_github_repo_info\<close> raises \<open>IndexError\<close> at \<open>parts[1]\<close>;
  \<open>build_city_from_github\<close> calls it outside its \<open>try\<close> block and ends with that
  exception, and the script exits with status 1 and the message of the \<open>IndexError\<close>.
\<close>

theorem url_without_slash_raises_IndexError:
  assumes "CHR ''/'' \<notin> set (strip_github_url url)"
  shows "get_github_repo_info url = Inl (Raise IndexError ''list index out of range'') \<and>
         build_city_from_github env url = Inl (Raise IndexError ''list index out of range'') \<and>
         main env [script, url] = (1, Some ''list index out of range'')"
  using assms
  by (simp add: main_def build_city_from_github_def get_github_repo_info_def split_no_sep subscript_def)

theorem url_without_slash_witness:
  "CHR ''/'' \<notin> set (strip_github_url ''https://github.com/owner'') \<and>
   get_github_repo_info ''https://github.com/owner'' =
     Inl (Raise IndexError ''list index out of range'') \<and>
   build_city_from_github example_env ''https://github.com/owner'' =
     Inl (Raise IndexError ''list index out of range'') \<and>
   main example_env [''scanner2.py'', ''https://github.com/owner''] =
     (1, Some ''list index out of range'')"
proof -
  have h: "CHR ''/'' \<notin> set (strip_github_url ''https://github.com/owner'')"
    by (simp add: strip_github_url_def string_simps)
  show ?thesis
    using h url_without_slash_raises_IndexError [OF h, of example_env "''scanner2.py''"] by simp
qed

end
